theory Spec2Isabelle
  imports Main "HOL-Library.Product_Lexorder"
begin

section \<open>Strings and timestamps\<close>

text \<open>
  A Python \<open>str\<close> is a sequence of Unicode code points, and \<open>len\<close> counts code
  points. A code point is a natural number; an ASCII literal of the source is written
  \<open>u ''...''\<close>.
\<close>

type_synonym ustring = "nat list"

definition u :: "string \<Rightarrow> ustring" where
  "u s = map of_char s"

text \<open>
  \<open>datetime\<close>: the naive timestamp of the standard library. Two naive timestamps
  compare as the tuples of their fields.
\<close>

record datetime =
  dt_year :: nat
  dt_month :: nat
  dt_day :: nat
  dt_hour :: nat
  dt_minute :: nat
  dt_second :: nat
  dt_microsecond :: nat

definition dt_key :: "datetime \<Rightarrow> nat \<times> nat \<times> nat \<times> nat \<times> nat \<times> nat \<times> nat" where
  "dt_key d = (dt_year d, dt_month d, dt_day d, dt_hour d, dt_minute d, dt_second d,
               dt_microsecond d)"

definition dt_lt :: "datetime \<Rightarrow> datetime \<Rightarrow> bool" where
  "dt_lt a b = (dt_key a < dt_key b)"

definition dt_le :: "datetime \<Rightarrow> datetime \<Rightarrow> bool" where
  "dt_le a b = (dt_key a \<le> dt_key b)"

text \<open>Decimal rendering, and zero-padded to a minimal width, as \<open>%m\<close>, \<open>%d\<close>, ... print.\<close>

fun dec :: "nat \<Rightarrow> ustring" where
  "dec n = (if n < 10 then [48 + n] else dec (n div 10) @ [48 + n mod 10])"

declare dec.simps [simp del]

definition zpad :: "nat \<Rightarrow> nat \<Rightarrow> ustring" where
  "zpad w n = replicate (w - length (dec n)) 48 @ dec n"

text \<open>
  The rendering \<open>f"{ts:%Y-%m-%d %H:%M}"\<close> used by \<open>ChatMessage.__str__\<close>, as
  CPython prints it on Linux: the year in as many digits as it has, the other fields on
  two digits.
\<close>

definition fmt_timestamp :: "datetime \<Rightarrow> ustring" where
  "fmt_timestamp d =
     dec (dt_year d) @ u ''-'' @ zpad 2 (dt_month d) @ u ''-'' @ zpad 2 (dt_day d) @
     u '' '' @ zpad 2 (dt_hour d) @ u '':'' @ zpad 2 (dt_minute d)"

section \<open>\<open>str.lower\<close>\<close>

text \<open>
  \<open>str.lower\<close> maps each code point to its lowercase (Unicode 14.0, the tables of the
  interpreter), except the capital sigma, whose lowercase depends on the characters around
  it. The tables leave out ASCII, which the functions below treat first.
  \<open>lower_runs\<close> lists the code points that have a lowercase of their own, as runs
  \<open>(first, last, step, lowercase of first)\<close>: within a run every \<open>step\<close>-th code
  point is mapped, at a constant distance.
\<close>

definition lower_runs :: "(nat \<times> nat \<times> nat \<times> nat) list" where
  "lower_runs =
     [(192, 214, 1, 224), (216, 222, 1, 248), (256, 302, 2, 257), (306, 310, 2, 307),
      (313, 327, 2, 314), (330, 374, 2, 331), (376, 376, 1, 255), (377, 381, 2, 378),
      (385, 385, 1, 595), (386, 388, 2, 387), (390, 390, 1, 596), (391, 391, 1, 392),
      (393, 394, 1, 598), (395, 395, 1, 396), (398, 398, 1, 477), (399, 399, 1, 601),
      (400, 400, 1, 603), (401, 401, 1, 402), (403, 403, 1, 608), (404, 404, 1, 611),
      (406, 406, 1, 617), (407, 407, 1, 616), (408, 408, 1, 409), (412, 412, 1, 623),
      (413, 413, 1, 626), (415, 415, 1, 629), (416, 420, 2, 417), (422, 422, 1, 640),
      (423, 423, 1, 424), (425, 425, 1, 643), (428, 428, 1, 429), (430, 430, 1, 648),
      (431, 431, 1, 432), (433, 434, 1, 650), (435, 437, 2, 436), (439, 439, 1, 658),
      (440, 440, 1, 441), (444, 444, 1, 445), (452, 452, 1, 454), (453, 453, 1, 454),
      (455, 455, 1, 457), (456, 456, 1, 457), (458, 458, 1, 460), (459, 475, 2, 460),
      (478, 494, 2, 479), (497, 497, 1, 499), (498, 500, 2, 499), (502, 502, 1, 405),
      (503, 503, 1, 447), (504, 542, 2, 505), (544, 544, 1, 414), (546, 562, 2, 547),
      (570, 570, 1, 11365), (571, 571, 1, 572), (573, 573, 1, 410), (574, 574, 1, 11366),
      (577, 577, 1, 578), (579, 579, 1, 384), (580, 580, 1, 649), (581, 581, 1, 652),
      (582, 590, 2, 583), (880, 882, 2, 881), (886, 886, 1, 887), (895, 895, 1, 1011),
      (902, 902, 1, 940), (904, 906, 1, 941), (908, 908, 1, 972), (910, 911, 1, 973),
      (913, 929, 1, 945), (931, 939, 1, 963), (975, 975, 1, 983), (984, 1006, 2, 985),
      (1012, 1012, 1, 952), (1015, 1015, 1, 1016), (1017, 1017, 1, 1010), (1018, 1018, 1, 1019),
      (1021, 1023, 1, 891), (1024, 1039, 1, 1104), (1040, 1071, 1, 1072), (1120, 1152, 2, 1121),
      (1162, 1214, 2, 1163), (1216, 1216, 1, 1231), (1217, 1229, 2, 1218), (1232, 1326, 2, 1233),
      (1329, 1366, 1, 1377), (4256, 4293, 1, 11520), (4295, 4295, 1, 11559),
      (4301, 4301, 1, 11565), (5024, 5103, 1, 43888), (5104, 5109, 1, 5112),
      (7312, 7354, 1, 4304), (7357, 7359, 1, 4349), (7680, 7828, 2, 7681), (7838, 7838, 1, 223),
      (7840, 7934, 2, 7841), (7944, 7951, 1, 7936), (7960, 7965, 1, 7952), (7976, 7983, 1, 7968),
      (7992, 7999, 1, 7984), (8008, 8013, 1, 8000), (8025, 8031, 2, 8017), (8040, 8047, 1, 8032),
      (8072, 8079, 1, 8064), (8088, 8095, 1, 8080), (8104, 8111, 1, 8096), (8120, 8121, 1, 8112),
      (8122, 8123, 1, 8048), (8124, 8124, 1, 8115), (8136, 8139, 1, 8050), (8140, 8140, 1, 8131),
      (8152, 8153, 1, 8144), (8154, 8155, 1, 8054), (8168, 8169, 1, 8160), (8170, 8171, 1, 8058),
      (8172, 8172, 1, 8165), (8184, 8185, 1, 8056), (8186, 8187, 1, 8060), (8188, 8188, 1, 8179),
      (8486, 8486, 1, 969), (8490, 8490, 1, 107), (8491, 8491, 1, 229), (8498, 8498, 1, 8526),
      (8544, 8559, 1, 8560), (8579, 8579, 1, 8580), (9398, 9423, 1, 9424),
      (11264, 11311, 1, 11312), (11360, 11360, 1, 11361), (11362, 11362, 1, 619),
      (11363, 11363, 1, 7549), (11364, 11364, 1, 637), (11367, 11371, 2, 11368),
      (11373, 11373, 1, 593), (11374, 11374, 1, 625), (11375, 11375, 1, 592),
      (11376, 11376, 1, 594), (11378, 11378, 1, 11379), (11381, 11381, 1, 11382),
      (11390, 11391, 1, 575), (11392, 11490, 2, 11393), (11499, 11501, 2, 11500),
      (11506, 11506, 1, 11507), (42560, 42604, 2, 42561), (42624, 42650, 2, 42625),
      (42786, 42798, 2, 42787), (42802, 42862, 2, 42803), (42873, 42875, 2, 42874),
      (42877, 42877, 1, 7545), (42878, 42886, 2, 42879), (42891, 42891, 1, 42892),
      (42893, 42893, 1, 613), (42896, 42898, 2, 42897), (42902, 42920, 2, 42903),
      (42922, 42922, 1, 614), (42923, 42923, 1, 604), (42924, 42924, 1, 609),
      (42925, 42925, 1, 620), (42926, 42926, 1, 618), (42928, 42928, 1, 670),
      (42929, 42929, 1, 647), (42930, 42930, 1, 669), (42931, 42931, 1, 43859),
      (42932, 42946, 2, 42933), (42948, 42948, 1, 42900), (42949, 42949, 1, 642),
      (42950, 42950, 1, 7566), (42951, 42953, 2, 42952), (42960, 42960, 1, 42961),
      (42966, 42968, 2, 42967), (42997, 42997, 1, 42998), (65313, 65338, 1, 65345),
      (66560, 66599, 1, 66600), (66736, 66771, 1, 66776), (66928, 66938, 1, 66967),
      (66940, 66954, 1, 66979), (66956, 66962, 1, 66995), (66964, 66965, 1, 67003),
      (68736, 68786, 1, 68800), (71840, 71871, 1, 71872), (93760, 93791, 1, 93792),
      (125184, 125217, 1, 125218)]"

text \<open>The code points with the property Case_Ignorable, as ranges.\<close>

definition case_ignorable_ranges :: "(nat \<times> nat) list" where
  "case_ignorable_ranges =
     [(168, 168), (173, 173), (175, 175), (180, 180), (183, 184), (688, 879), (884, 885),
      (890, 890), (900, 901), (903, 903), (1155, 1161), (1369, 1369), (1375, 1375), (1425, 1469),
      (1471, 1471), (1473, 1474), (1476, 1477), (1479, 1479), (1524, 1524), (1536, 1541),
      (1552, 1562), (1564, 1564), (1600, 1600), (1611, 1631), (1648, 1648), (1750, 1757),
      (1759, 1768), (1770, 1773), (1807, 1807), (1809, 1809), (1840, 1866), (1958, 1968),
      (2027, 2037), (2042, 2042), (2045, 2045), (2070, 2093), (2137, 2139), (2184, 2184),
      (2192, 2193), (2200, 2207), (2249, 2306), (2362, 2362), (2364, 2364), (2369, 2376),
      (2381, 2381), (2385, 2391), (2402, 2403), (2417, 2417), (2433, 2433), (2492, 2492),
      (2497, 2500), (2509, 2509), (2530, 2531), (2558, 2558), (2561, 2562), (2620, 2620),
      (2625, 2626), (2631, 2632), (2635, 2637), (2641, 2641), (2672, 2673), (2677, 2677),
      (2689, 2690), (2748, 2748), (2753, 2757), (2759, 2760), (2765, 2765), (2786, 2787),
      (2810, 2815), (2817, 2817), (2876, 2876), (2879, 2879), (2881, 2884), (2893, 2893),
      (2901, 2902), (2914, 2915), (2946, 2946), (3008, 3008), (3021, 3021), (3072, 3072),
      (3076, 3076), (3132, 3132), (3134, 3136), (3142, 3144), (3146, 3149), (3157, 3158),
      (3170, 3171), (3201, 3201), (3260, 3260), (3263, 3263), (3270, 3270), (3276, 3277),
      (3298, 3299), (3328, 3329), (3387, 3388), (3393, 3396), (3405, 3405), (3426, 3427),
      (3457, 3457), (3530, 3530), (3538, 3540), (3542, 3542), (3633, 3633), (3636, 3642),
      (3654, 3662), (3761, 3761), (3764, 3772), (3782, 3782), (3784, 3789), (3864, 3865),
      (3893, 3893), (3895, 3895), (3897, 3897), (3953, 3966), (3968, 3972), (3974, 3975),
      (3981, 3991), (3993, 4028), (4038, 4038), (4141, 4144), (4146, 4151), (4153, 4154),
      (4157, 4158), (4184, 4185), (4190, 4192), (4209, 4212), (4226, 4226), (4229, 4230),
      (4237, 4237), (4253, 4253), (4348, 4348), (4957, 4959), (5906, 5908), (5938, 5939),
      (5970, 5971), (6002, 6003), (6068, 6069), (6071, 6077), (6086, 6086), (6089, 6099),
      (6103, 6103), (6109, 6109), (6155, 6159), (6211, 6211), (6277, 6278), (6313, 6313),
      (6432, 6434), (6439, 6440), (6450, 6450), (6457, 6459), (6679, 6680), (6683, 6683),
      (6742, 6742), (6744, 6750), (6752, 6752), (6754, 6754), (6757, 6764), (6771, 6780),
      (6783, 6783), (6823, 6823), (6832, 6862), (6912, 6915), (6964, 6964), (6966, 6970),
      (6972, 6972), (6978, 6978), (7019, 7027), (7040, 7041), (7074, 7077), (7080, 7081),
      (7083, 7085), (7142, 7142), (7144, 7145), (7149, 7149), (7151, 7153), (7212, 7219),
      (7222, 7223), (7288, 7293), (7376, 7378), (7380, 7392), (7394, 7400), (7405, 7405),
      (7412, 7412), (7416, 7417), (7468, 7530), (7544, 7544), (7579, 7679), (8125, 8125),
      (8127, 8129), (8141, 8143), (8157, 8159), (8173, 8175), (8189, 8190), (8203, 8207),
      (8216, 8217), (8228, 8228), (8231, 8231), (8234, 8238), (8288, 8292), (8294, 8303),
      (8305, 8305), (8319, 8319), (8336, 8348), (8400, 8432), (11388, 11389), (11503, 11505),
      (11631, 11631), (11647, 11647), (11744, 11775), (11823, 11823), (12293, 12293),
      (12330, 12333), (12337, 12341), (12347, 12347), (12441, 12446), (12540, 12542),
      (40981, 40981), (42232, 42237), (42508, 42508), (42607, 42610), (42612, 42621),
      (42623, 42623), (42652, 42655), (42736, 42737), (42752, 42785), (42864, 42864),
      (42888, 42890), (42994, 42996), (43000, 43001), (43010, 43010), (43014, 43014),
      (43019, 43019), (43045, 43046), (43052, 43052), (43204, 43205), (43232, 43249),
      (43263, 43263), (43302, 43309), (43335, 43345), (43392, 43394), (43443, 43443),
      (43446, 43449), (43452, 43453), (43471, 43471), (43493, 43494), (43561, 43566),
      (43569, 43570), (43573, 43574), (43587, 43587), (43596, 43596), (43632, 43632),
      (43644, 43644), (43696, 43696), (43698, 43700), (43703, 43704), (43710, 43711),
      (43713, 43713), (43741, 43741), (43756, 43757), (43763, 43764), (43766, 43766),
      (43867, 43871), (43881, 43883), (44005, 44005), (44008, 44008), (44013, 44013),
      (64286, 64286), (64434, 64450), (65024, 65039), (65043, 65043), (65056, 65071),
      (65106, 65106), (65109, 65109), (65279, 65279), (65287, 65287), (65294, 65294),
      (65306, 65306), (65342, 65342), (65344, 65344), (65392, 65392), (65438, 65439),
      (65507, 65507), (65529, 65531), (66045, 66045), (66272, 66272), (66422, 66426),
      (67456, 67461), (67463, 67504), (67506, 67514), (68097, 68099), (68101, 68102),
      (68108, 68111), (68152, 68154), (68159, 68159), (68325, 68326), (68900, 68903),
      (69291, 69292), (69446, 69456), (69506, 69509), (69633, 69633), (69688, 69702),
      (69744, 69744), (69747, 69748), (69759, 69761), (69811, 69814), (69817, 69818),
      (69821, 69821), (69826, 69826), (69837, 69837), (69888, 69890), (69927, 69931),
      (69933, 69940), (70003, 70003), (70016, 70017), (70070, 70078), (70089, 70092),
      (70095, 70095), (70191, 70193), (70196, 70196), (70198, 70199), (70206, 70206),
      (70367, 70367), (70371, 70378), (70400, 70401), (70459, 70460), (70464, 70464),
      (70502, 70508), (70512, 70516), (70712, 70719), (70722, 70724), (70726, 70726),
      (70750, 70750), (70835, 70840), (70842, 70842), (70847, 70848), (70850, 70851),
      (71090, 71093), (71100, 71101), (71103, 71104), (71132, 71133), (71219, 71226),
      (71229, 71229), (71231, 71232), (71339, 71339), (71341, 71341), (71344, 71349),
      (71351, 71351), (71453, 71455), (71458, 71461), (71463, 71467), (71727, 71735),
      (71737, 71738), (71995, 71996), (71998, 71998), (72003, 72003), (72148, 72151),
      (72154, 72155), (72160, 72160), (72193, 72202), (72243, 72248), (72251, 72254),
      (72263, 72263), (72273, 72278), (72281, 72283), (72330, 72342), (72344, 72345),
      (72752, 72758), (72760, 72765), (72767, 72767), (72850, 72871), (72874, 72880),
      (72882, 72883), (72885, 72886), (73009, 73014), (73018, 73018), (73020, 73021),
      (73023, 73029), (73031, 73031), (73104, 73105), (73109, 73109), (73111, 73111),
      (73459, 73460), (78896, 78904), (92912, 92916), (92976, 92982), (92992, 92995),
      (94031, 94031), (94095, 94111), (94176, 94177), (94179, 94180), (110576, 110579),
      (110581, 110587), (110589, 110590), (113821, 113822), (113824, 113827), (118528, 118573),
      (118576, 118598), (119143, 119145), (119155, 119170), (119173, 119179), (119210, 119213),
      (119362, 119364), (121344, 121398), (121403, 121452), (121461, 121461), (121476, 121476),
      (121499, 121503), (121505, 121519), (122880, 122886), (122888, 122904), (122907, 122913),
      (122915, 122916), (122918, 122922), (123184, 123197), (123566, 123566), (123628, 123631),
      (125136, 125142), (125252, 125259), (127995, 127999), (917505, 917505), (917536, 917631),
      (917760, 917999)]"

text \<open>The code points with the property Cased, as ranges.\<close>

definition cased_ranges :: "(nat \<times> nat) list" where
  "cased_ranges =
     [(170, 170), (181, 181), (186, 186), (192, 214), (216, 246), (248, 442), (444, 447),
      (452, 659), (661, 696), (704, 705), (736, 740), (837, 837), (880, 883), (886, 887),
      (890, 893), (895, 895), (902, 902), (904, 906), (908, 908), (910, 929), (931, 1013),
      (1015, 1153), (1162, 1327), (1329, 1366), (1376, 1416), (4256, 4293), (4295, 4295),
      (4301, 4301), (4304, 4346), (4349, 4351), (5024, 5109), (5112, 5117), (7296, 7304),
      (7312, 7354), (7357, 7359), (7424, 7615), (7680, 7957), (7960, 7965), (7968, 8005),
      (8008, 8013), (8016, 8023), (8025, 8025), (8027, 8027), (8029, 8029), (8031, 8061),
      (8064, 8116), (8118, 8124), (8126, 8126), (8130, 8132), (8134, 8140), (8144, 8147),
      (8150, 8155), (8160, 8172), (8178, 8180), (8182, 8188), (8305, 8305), (8319, 8319),
      (8336, 8348), (8450, 8450), (8455, 8455), (8458, 8467), (8469, 8469), (8473, 8477),
      (8484, 8484), (8486, 8486), (8488, 8488), (8490, 8493), (8495, 8500), (8505, 8505),
      (8508, 8511), (8517, 8521), (8526, 8526), (8544, 8575), (8579, 8580), (9398, 9449),
      (11264, 11492), (11499, 11502), (11506, 11507), (11520, 11557), (11559, 11559),
      (11565, 11565), (42560, 42605), (42624, 42653), (42786, 42887), (42891, 42894),
      (42896, 42954), (42960, 42961), (42963, 42963), (42965, 42969), (42997, 42998),
      (43000, 43002), (43824, 43866), (43868, 43880), (43888, 43967), (64256, 64262),
      (64275, 64279), (65313, 65338), (65345, 65370), (66560, 66639), (66736, 66771),
      (66776, 66811), (66928, 66938), (66940, 66954), (66956, 66962), (66964, 66965),
      (66967, 66977), (66979, 66993), (66995, 67001), (67003, 67004), (67456, 67456),
      (67459, 67461), (67463, 67504), (67506, 67514), (68736, 68786), (68800, 68850),
      (71840, 71903), (93760, 93823), (119808, 119892), (119894, 119964), (119966, 119967),
      (119970, 119970), (119973, 119974), (119977, 119980), (119982, 119993), (119995, 119995),
      (119997, 120003), (120005, 120069), (120071, 120074), (120077, 120084), (120086, 120092),
      (120094, 120121), (120123, 120126), (120128, 120132), (120134, 120134), (120138, 120144),
      (120146, 120485), (120488, 120512), (120514, 120538), (120540, 120570), (120572, 120596),
      (120598, 120628), (120630, 120654), (120656, 120686), (120688, 120712), (120714, 120744),
      (120746, 120770), (120772, 120779), (122624, 122633), (122635, 122654), (125184, 125251),
      (127280, 127305), (127312, 127337), (127344, 127369)]"

definition in_ranges :: "(nat \<times> nat) list \<Rightarrow> nat \<Rightarrow> bool" where
  "in_ranges rs c = list_ex (\<lambda>(lo, hi). lo \<le> c \<and> c \<le> hi) rs"

definition case_ignorable :: "nat \<Rightarrow> bool" where
  "case_ignorable c =
     (if c < 128 then c = 39 \<or> c = 46 \<or> c = 58 \<or> c = 94 \<or> c = 96
      else in_ranges case_ignorable_ranges c)"

definition cased :: "nat \<Rightarrow> bool" where
  "cased c =
     (if c < 128 then (65 \<le> c \<and> c \<le> 90) \<or> (97 \<le> c \<and> c \<le> 122)
      else in_ranges cased_ranges c)"

text \<open>
  The lowercase of one code point other than the capital sigma. U+0130 is the one code
  point whose lowercase is two code points.
\<close>

definition lower_cp :: "nat \<Rightarrow> ustring" where
  "lower_cp c =
     (if c < 128 then (if 65 \<le> c \<and> c \<le> 90 then [c + 32] else [c])
      else if c = 304 then [105, 775]
      else (case List.find (\<lambda>(lo, hi, step, t). lo \<le> c \<and> c \<le> hi \<and> (c - lo) mod step = 0)
                   lower_runs of
              Some (lo, hi, step, t) \<Rightarrow> [t + (c - lo)]
            | None \<Rightarrow> [c]))"

text \<open>
  Whether a cased character follows, case-ignorable characters skipped: with a cased
  character before, this decides between the two lowercase sigmas.
\<close>

definition cased_follows :: "ustring \<Rightarrow> bool" where
  "cased_follows cs =
     (case dropWhile case_ignorable cs of [] \<Rightarrow> False | d # ds \<Rightarrow> cased d)"

text \<open>
  \<open>lower_from prev s\<close>: the lowercase of \<open>s\<close>, where \<open>prev\<close> says whether the last
  character before \<open>s\<close> that is not case-ignorable is cased. A capital sigma (931) becomes
  the final sigma (962) when a cased character precedes and none follows, and the small
  sigma (963) otherwise.
\<close>

fun lower_from :: "bool \<Rightarrow> ustring \<Rightarrow> ustring" where
  "lower_from prev [] = []"
| "lower_from prev (c # cs) =
     (if c = 931 then [if prev \<and> \<not> cased_follows cs then 962 else 963] else lower_cp c) @
     lower_from (if case_ignorable c then prev else cased c) cs"

definition lower :: "ustring \<Rightarrow> ustring" where
  "lower s = lower_from False s"

section \<open>The message model (models/message.py)\<close>

record chat_message =
  timestamp :: datetime
  sender :: ustring
  content :: ustring
  is_system :: bool
  is_media :: bool

record conversation =
  messages :: "chat_message list"

text \<open>\<open>ChatMessage.__str__\<close>.\<close>

definition str_message :: "chat_message \<Rightarrow> ustring" where
  "str_message m =
     (if is_system m then u ''['' @ fmt_timestamp (timestamp m) @ u ''] '' @ content m
      else u ''['' @ fmt_timestamp (timestamp m) @ u ''] '' @ sender m @ u '': '' @ content m)"

text \<open>\<open>sep.join(parts)\<close>.\<close>

fun join :: "ustring \<Rightarrow> ustring list \<Rightarrow> ustring" where
  "join sep [] = []"
| "join sep [x] = x"
| "join sep (x # y # ys) = x @ sep @ join sep (y # ys)"

definition to_text :: "conversation \<Rightarrow> ustring" where
  "to_text c = join [10] (map str_message (messages c))"

text \<open>
  \<open>Conversation.filter_by_participant\<close>: the comprehension runs over
  \<open>self.messages\<close> in order and appends each message that passes the test to a
  fresh list.
\<close>

fun participant_loop :: "ustring \<Rightarrow> chat_message list \<Rightarrow> chat_message list \<Rightarrow> chat_message list" where
  "participant_loop participant [] filtered = filtered"
| "participant_loop participant (m # ms) filtered =
     (if lower (sender m) = lower participant \<or> is_system m
      then participant_loop participant ms (filtered @ [m])
      else participant_loop participant ms filtered)"

definition filter_by_participant :: "conversation \<Rightarrow> ustring \<Rightarrow> conversation" where
  "filter_by_participant c participant =
     \<lparr>messages = participant_loop participant (messages c) []\<rparr>"

text \<open>
  The same call on objects: the store holds the Conversation objects, an object is its
  index, and the constructor call at the end of the method allocates the result.
\<close>

type_synonym store = "conversation list"

definition new_conversation :: "store \<Rightarrow> conversation \<Rightarrow> store \<times> nat" where
  "new_conversation h c = (h @ [c], length h)"

definition filter_by_participant_obj :: "store \<Rightarrow> nat \<Rightarrow> ustring \<Rightarrow> store \<times> nat" where
  "filter_by_participant_obj h self participant =
     new_conversation h (filter_by_participant (h ! self) participant)"

text \<open>
  \<open>Conversation.filter_by_date_range\<close>: the loop with its two \<open>continue\<close>s. A
  \<open>datetime\<close> is always truthy, so \<open>if start and ...\<close> tests only that the bound is
  given.
\<close>

fun date_range_loop ::
  "datetime option \<Rightarrow> datetime option \<Rightarrow> chat_message list \<Rightarrow> chat_message list \<Rightarrow> chat_message list"
where
  "date_range_loop start end [] filtered = filtered"
| "date_range_loop start end (m # ms) filtered =
     (if (case start of None \<Rightarrow> False | Some s \<Rightarrow> dt_lt (timestamp m) s)
        then date_range_loop start end ms filtered
      else if (case end of None \<Rightarrow> False | Some e \<Rightarrow> dt_lt e (timestamp m))
        then date_range_loop start end ms filtered
      else date_range_loop start end ms (filtered @ [m]))"

definition filter_by_date_range ::
  "conversation \<Rightarrow> datetime option \<Rightarrow> datetime option \<Rightarrow> conversation" where
  "filter_by_date_range c start end = \<lparr>messages = date_range_loop start end (messages c) []\<rparr>"

section \<open>Filters (analyzer/filters.py)\<close>

text \<open>
  \<open>apply_filters\<close>: \<open>if participant:\<close> is false for \<open>None\<close> and for the empty
  string alike.
\<close>

definition apply_filters ::
  "conversation \<Rightarrow> ustring option \<Rightarrow> datetime option \<Rightarrow> datetime option \<Rightarrow> conversation" where
  "apply_filters conv participant start_date end_date =
     (let result = conv;
          result = (if start_date \<noteq> None \<or> end_date \<noteq> None
                    then filter_by_date_range result start_date end_date else result);
          result = (case participant of
                      None \<Rightarrow> result
                    | Some p \<Rightarrow> if p \<noteq> [] then filter_by_participant result p else result)
      in result)"

section \<open>Characters and string operations of the standard library\<close>

text \<open>
  \<open>str.isspace\<close>, which is also the class \<open>\s\<close> of \<open>re\<close> on \<open>str\<close> patterns and
  what \<open>str.strip\<close> removes.
\<close>

definition is_space :: "nat \<Rightarrow> bool" where
  "is_space c =
     ((9 \<le> c \<and> c \<le> 13) \<or> (28 \<le> c \<and> c \<le> 32) \<or> c = 133 \<or> c = 160 \<or> c = 5760 \<or>
      (8192 \<le> c \<and> c \<le> 8202) \<or> c = 8232 \<or> c = 8233 \<or> c = 8239 \<or> c = 8287 \<or>
      c = 12288)"

text \<open>
  The class \<open>\d\<close> of \<open>re\<close> on \<open>str\<close> patterns: the decimal digits of Unicode
  (category Nd, Unicode 14.0). Every block is ten consecutive code points, the digits
  0 to 9; \<open>nd_blocks\<close> lists the first code point of each block after the ASCII one.
\<close>

definition nd_blocks :: "nat list" where
  "nd_blocks =
     [1632, 1776, 1984, 2406, 2534, 2662, 2790, 2918, 3046, 3174, 3302, 3430, 3558, 3664,
      3792, 3872, 4160, 4240, 6112, 6160, 6470, 6608, 6784, 6800, 6992, 7088, 7232, 7248,
      42528, 43216, 43264, 43472, 43504, 43600, 44016, 65296, 66720, 68912, 69734, 69872,
      69942, 70096, 70384, 70736, 70864, 71248, 71360, 71472, 71904, 72016, 72784, 73040,
      73120, 92768, 92864, 93008, 120782, 120792, 120802, 120812, 120822, 123200, 123632,
      125264, 130032]"

definition is_digit :: "nat \<Rightarrow> bool" where
  "is_digit c =
     (if c < 128 then 48 \<le> c \<and> c \<le> 57
      else list_ex (\<lambda>b. b \<le> c \<and> c < b + 10) nd_blocks)"

text \<open>The value \<open>int\<close> gives a decimal digit, and \<open>int\<close> on a string of digits.\<close>

definition digit_val :: "nat \<Rightarrow> nat" where
  "digit_val c =
     (if c < 128 then c - 48
      else (case List.find (\<lambda>b. b \<le> c \<and> c < b + 10) nd_blocks of
              Some b \<Rightarrow> c - b
            | None \<Rightarrow> 0))"

definition py_int :: "ustring \<Rightarrow> nat" where
  "py_int s = foldl (\<lambda>a c. 10 * a + digit_val c) 0 s"

text \<open>\<open>s.strip()\<close>.\<close>

definition strip :: "ustring \<Rightarrow> ustring" where
  "strip s = rev (dropWhile is_space (rev (dropWhile is_space s)))"

text \<open>\<open>s.split(sep)\<close> for a separator of one character: always at least one piece.\<close>

fun split_on :: "nat \<Rightarrow> ustring \<Rightarrow> ustring list" where
  "split_on sep [] = [[]]"
| "split_on sep (c # cs) =
     (if c = sep then [] # split_on sep cs
      else (case split_on sep cs of
              l # ls \<Rightarrow> (c # l) # ls
            | [] \<Rightarrow> [[c]]))"

text \<open>\<open>needle in haystack\<close> on strings.\<close>

fun contains :: "ustring \<Rightarrow> ustring \<Rightarrow> bool" where
  "contains needle [] = (needle = [])"
| "contains needle (c # cs) =
     (if take (length needle) (c # cs) = needle then True else contains needle cs)"

section \<open>Regular expressions (the fragment of \<open>re\<close> the sources use)\<close>

text \<open>
  The patterns of the parser and of \<open>strptime\<close> are built from character classes,
  bounded or unbounded repetition of a class (greedy or lazy), sequence, alternation,
  optional parts and capturing groups. \<open>re\<close> is a backtracking matcher: \<open>rx_run\<close>
  returns every way to match a prefix of the input, in the order in which backtracking
  tries them, as the captures made and the input left. The first is the match that
  \<open>pattern.match\<close> returns.
\<close>

datatype rx =
    Eps
  | Cls "nat \<Rightarrow> bool"
  | Rep "nat \<Rightarrow> bool" nat "nat option"
  | RepLazy "nat \<Rightarrow> bool" nat "nat option"
  | Seq rx rx
  | Alt rx rx
  | Opt rx
  | Grp nat rx

type_synonym captures = "(nat \<times> ustring) list"

text \<open>
  The input left after 0, 1, 2, ... characters of the class, while they are of the
  class.
\<close>

fun rests :: "(nat \<Rightarrow> bool) \<Rightarrow> ustring \<Rightarrow> ustring list" where
  "rests P [] = [[]]"
| "rests P (c # cs) = (c # cs) # (if P c then rests P cs else [])"

definition rep_candidates :: "(nat \<Rightarrow> bool) \<Rightarrow> nat \<Rightarrow> nat option \<Rightarrow> ustring \<Rightarrow> ustring list" where
  "rep_candidates P lo hi s =
     drop lo (case hi of None \<Rightarrow> rests P s | Some h \<Rightarrow> take (Suc h) (rests P s))"

fun rx_run :: "rx \<Rightarrow> captures \<times> ustring \<Rightarrow> (captures \<times> ustring) list" where
  "rx_run Eps st = [st]"
| "rx_run (Cls P) (caps, s) =
     (case s of [] \<Rightarrow> [] | c # cs \<Rightarrow> if P c then [(caps, cs)] else [])"
| "rx_run (Rep P lo hi) (caps, s) = map (Pair caps) (rev (rep_candidates P lo hi s))"
| "rx_run (RepLazy P lo hi) (caps, s) = map (Pair caps) (rep_candidates P lo hi s)"
| "rx_run (Seq a b) st = concat (map (rx_run b) (rx_run a st))"
| "rx_run (Alt a b) st = rx_run a st @ rx_run b st"
| "rx_run (Opt a) st = rx_run a st @ [st]"
| "rx_run (Grp i a) (caps, s) =
     map (\<lambda>(caps', s'). ((i, take (length s - length s') s) # caps', s')) (rx_run a (caps, s))"

text \<open>A match object: its groups and \<open>match.end()\<close>.\<close>

record rmatch =
  groups :: captures
  m_end :: nat

definition rx_match :: "rx \<Rightarrow> ustring \<Rightarrow> rmatch option" where
  "rx_match r s =
     (case rx_run r ([], s) of
        [] \<Rightarrow> None
      | (caps, s') # _ \<Rightarrow> Some \<lparr>groups = caps, m_end = length s - length s'\<rparr>)"

text \<open>
  \<open>match.group(i)\<close>. The groups asked for below take part in every match of their
  pattern, so the default is never reached.
\<close>

definition match_group :: "rmatch \<Rightarrow> nat \<Rightarrow> ustring" where
  "match_group m i = (case map_of (groups m) i of Some g \<Rightarrow> g | None \<Rightarrow> [])"

text \<open>Pattern syntax: a literal character, a sequence.\<close>

definition lit :: "char \<Rightarrow> rx" where
  "lit c = Cls (\<lambda>x. x = of_char c)"

definition one_of :: "string \<Rightarrow> rx" where
  "one_of cs = Cls (\<lambda>x. x \<in> set (map of_char cs))"

definition in_range :: "char \<Rightarrow> char \<Rightarrow> rx" where
  "in_range a b = Cls (\<lambda>x. of_char a \<le> x \<and> x \<le> of_char b)"

fun seq :: "rx list \<Rightarrow> rx" where
  "seq [] = Eps"
| "seq [r] = r"
| "seq (r # rs) = Seq r (seq rs)"

fun alt :: "rx list \<Rightarrow> rx" where
  "alt [] = Cls (\<lambda>x. False)"
| "alt [r] = r"
| "alt (r # rs) = Alt r (alt rs)"


section \<open>Timestamps from text (\<open>datetime.strptime\<close>)\<close>

text \<open>
  The regular expression \<open>strptime\<close> builds for a directive (\<open>_strptime.TimeRE\<close>, in
  the C locale), as a group named by the directive. The pattern is compiled with
  \<open>IGNORECASE\<close>, which matters for \<open>%p\<close> only.
\<close>

definition directive :: "char \<Rightarrow> rx" where
  "directive d =
     Grp (of_char d)
       (if d = CHR ''d'' then
          alt [seq [lit CHR ''3'', in_range CHR ''0'' CHR ''1''],
               seq [in_range CHR ''1'' CHR ''2'', Cls is_digit],
               seq [lit CHR ''0'', in_range CHR ''1'' CHR ''9''],
               in_range CHR ''1'' CHR ''9'',
               seq [lit CHR '' '', in_range CHR ''1'' CHR ''9'']]
        else if d = CHR ''m'' \<or> d = CHR ''I'' then
          alt [seq [lit CHR ''1'', in_range CHR ''0'' CHR ''2''],
               seq [lit CHR ''0'', in_range CHR ''1'' CHR ''9''],
               in_range CHR ''1'' CHR ''9'']
        else if d = CHR ''Y'' then
          seq [Cls is_digit, Cls is_digit, Cls is_digit, Cls is_digit]
        else if d = CHR ''y'' then
          seq [Cls is_digit, Cls is_digit]
        else if d = CHR ''H'' then
          alt [seq [lit CHR ''2'', in_range CHR ''0'' CHR ''3''],
               seq [in_range CHR ''0'' CHR ''1'', Cls is_digit],
               Cls is_digit]
        else if d = CHR ''M'' then
          alt [seq [in_range CHR ''0'' CHR ''5'', Cls is_digit], Cls is_digit]
        else if d = CHR ''S'' then
          alt [seq [lit CHR ''6'', in_range CHR ''0'' CHR ''1''],
               seq [in_range CHR ''0'' CHR ''5'', Cls is_digit],
               Cls is_digit]
        else if d = CHR ''p'' then
          alt [seq [one_of ''aA'', one_of ''mM''], seq [one_of ''pP'', one_of ''mM'']]
        else Cls (\<lambda>x. False))"

text \<open>
  \<open>TimeRE.pattern\<close>: a run of blanks in the format stands for \<open>\s+\<close>, \<open>%x\<close> for the
  expression of the directive, any other character for itself.
\<close>

fun fmt_pattern :: "string \<Rightarrow> rx list" where
  "fmt_pattern [] = []"
| "fmt_pattern [c] = (if c = CHR '' '' then [Rep is_space 1 None] else [lit c])"
| "fmt_pattern (c # d # cs) =
     (if c = CHR ''%'' then directive d # fmt_pattern cs
      else if c = CHR '' '' then
        (if d = CHR '' '' then fmt_pattern (d # cs)
         else Rep is_space 1 None # fmt_pattern (d # cs))
      else lit c # fmt_pattern (d # cs))"

definition is_leap :: "nat \<Rightarrow> bool" where
  "is_leap y = (y mod 4 = 0 \<and> (y mod 100 \<noteq> 0 \<or> y mod 400 = 0))"

definition days_in_month :: "nat \<Rightarrow> nat \<Rightarrow> nat" where
  "days_in_month y m =
     (if m = 2 then (if is_leap y then 29 else 28)
      else if m = 4 \<or> m = 6 \<or> m = 9 \<or> m = 11 then 30 else 31)"

text \<open>The constructor \<open>datetime(y, m, d, H, M, S)\<close>; \<open>None\<close> is its \<open>ValueError\<close>.\<close>

definition make_datetime :: "nat \<Rightarrow> nat \<Rightarrow> nat \<Rightarrow> nat \<Rightarrow> nat \<Rightarrow> nat \<Rightarrow> datetime option" where
  "make_datetime y mo d h mi s =
     (if 1 \<le> y \<and> y \<le> 9999 \<and> 1 \<le> mo \<and> mo \<le> 12 \<and> 1 \<le> d \<and> d \<le> days_in_month y mo \<and>
         h \<le> 23 \<and> mi \<le> 59 \<and> s \<le> 59
      then Some \<lparr>dt_year = y, dt_month = mo, dt_day = d, dt_hour = h, dt_minute = mi,
                  dt_second = s, dt_microsecond = 0\<rparr>
      else None)"

definition found :: "rmatch \<Rightarrow> char \<Rightarrow> ustring option" where
  "found m d = map_of (groups m) (of_char d)"

text \<open>
  \<open>datetime.strptime(data_string, format)\<close>; \<open>None\<close> is its \<open>ValueError\<close>: the
  string does not match the format, text is left after the match, or the fields are no
  date. Fields the format does not name keep their defaults.
\<close>

definition strptime :: "ustring \<Rightarrow> string \<Rightarrow> datetime option" where
  "strptime data_string format =
     (case rx_match (seq (fmt_pattern format)) data_string of
        None \<Rightarrow> None
      | Some m \<Rightarrow>
          if length data_string \<noteq> m_end m then None
          else
            let year = (case found m CHR ''Y'' of
                          Some y \<Rightarrow> py_int y
                        | None \<Rightarrow>
                            (case found m CHR ''y'' of
                               Some y \<Rightarrow> (if py_int y \<le> 68 then py_int y + 2000
                                          else py_int y + 1900)
                             | None \<Rightarrow> 1900));
                month = (case found m CHR ''m'' of Some x \<Rightarrow> py_int x | None \<Rightarrow> 1);
                day = (case found m CHR ''d'' of Some x \<Rightarrow> py_int x | None \<Rightarrow> 1);
                hour = (case found m CHR ''H'' of
                          Some x \<Rightarrow> py_int x
                        | None \<Rightarrow>
                            (case found m CHR ''I'' of
                               Some x \<Rightarrow>
                                 (let hour = py_int x;
                                      ampm = lower (case found m CHR ''p'' of
                                                      Some p \<Rightarrow> p | None \<Rightarrow> [])
                                  in if ampm = [] \<or> ampm = u ''am''
                                     then (if hour = 12 then 0 else hour)
                                     else if ampm = u ''pm''
                                     then (if hour \<noteq> 12 then hour + 12 else hour)
                                     else hour)
                             | None \<Rightarrow> 0));
                minute = (case found m CHR ''M'' of Some x \<Rightarrow> py_int x | None \<Rightarrow> 0);
                second = (case found m CHR ''S'' of Some x \<Rightarrow> py_int x | None \<Rightarrow> 0)
            in make_datetime year month day hour minute second)"

section \<open>The text parser (parsers/text_parser.py)\<close>

text \<open>The class \<open>_UNICODE_JUNK\<close>.\<close>

definition UNICODE_JUNK :: "nat \<Rightarrow> bool" where
  "UNICODE_JUNK c = (c \<in> set [8206, 8207, 8234, 8235, 8236, 8203, 8205, 65279])"

text \<open>The parts the four patterns share: the date, the time, the separators.\<close>

definition date_rx :: rx where
  "date_rx =
     seq [Rep is_digit 1 (Some 2), lit CHR ''/'', Rep is_digit 1 (Some 2), lit CHR ''/'',
          Rep is_digit 2 (Some 4)]"

definition time_rx :: rx where
  "time_rx =
     seq [Rep is_digit 1 (Some 2), lit CHR '':'', Rep is_digit 2 (Some 2),
          Opt (seq [lit CHR '':'', Rep is_digit 2 (Some 2)])]"

definition ampm_rx :: rx where
  "ampm_rx = Opt (seq [Rep is_space 0 None, one_of ''APap'', one_of ''Mm''])"

definition dash_rx :: rx where
  "dash_rx = Cls (\<lambda>x. x = 45 \<or> x = 8211 \<or> x = 8212)"

definition PATTERNS :: "rx list" where
  "PATTERNS =
     [seq [lit CHR ''['', Grp 1 (seq [time_rx, ampm_rx]), lit CHR '','', Rep is_space 1 None,
           Grp 2 date_rx, lit CHR '']'', Rep is_space 1 None],
      seq [lit CHR ''['', Grp 1 date_rx, lit CHR '','', Rep is_space 1 None,
           Grp 2 (seq [time_rx, ampm_rx]), lit CHR '']'', Rep is_space 1 None],
      seq [Grp 1 date_rx, lit CHR '','', Rep is_space 1 None,
           Grp 2 (seq [time_rx, Rep is_space 0 None, one_of ''APap'', Opt (one_of ''Mm'')]),
           Rep is_space 1 None, dash_rx, Rep is_space 1 None],
      seq [Grp 1 date_rx, lit CHR '','', Rep is_space 1 None, Grp 2 time_rx,
           Rep is_space 1 None, dash_rx, Rep is_space 1 None]]"

definition DATE_FORMATS :: "string list" where
  "DATE_FORMATS =
     [''%d/%m/%Y, %H:%M'',
      ''%d/%m/%Y, %H:%M:%S'',
      ''%m/%d/%Y, %I:%M %p'',
      ''%m/%d/%Y, %I:%M:%S %p'',
      ''%d/%m/%y, %H:%M'',
      ''%d/%m/%y, %H:%M:%S'',
      ''%m/%d/%y, %I:%M %p'',
      ''%m/%d/%y, %I:%M:%S %p'',
      ''%d/%m/%Y, %I:%M %p'',
      ''%d/%m/%Y, %I:%M:%S %p'']"

definition SYSTEM_INDICATORS :: "string list" where
  "SYSTEM_INDICATORS =
     [''messages and calls are end-to-end encrypted'',
      ''created group'',
      ''added you'',
      ''added '',
      ''removed '',
      ''left'',
      ''changed the subject'',
      ''changed this group'',
      ''changed the group'',
      ''you were added'',
      ''security code changed'',
      ''joined using this group'']"

definition MEDIA_INDICATOR :: string where
  "MEDIA_INDICATOR = ''<media omitted>''"

text \<open>The loop of \<open>_parse_timestamp\<close>: the first format that parses wins.\<close>

fun try_formats :: "string list \<Rightarrow> ustring \<Rightarrow> datetime option" where
  "try_formats [] combined = None"
| "try_formats (fmt # fmts) combined =
     (case strptime combined fmt of
        Some d \<Rightarrow> Some d
      | None \<Rightarrow> try_formats fmts combined)"

definition parse_timestamp :: "ustring \<Rightarrow> ustring \<Rightarrow> datetime option" where
  "parse_timestamp date_str time_str =
     (let combined = date_str @ u '', '' @ strip time_str
      in try_formats DATE_FORMATS combined)"

definition is_system_message :: "ustring \<Rightarrow> bool" where
  "is_system_message text =
     (let lowered = lower text
      in list_ex (\<lambda>indicator. contains (u indicator) lowered) SYSTEM_INDICATORS)"

definition clean_line :: "ustring \<Rightarrow> ustring" where
  "clean_line line = strip (filter (\<lambda>c. \<not> UNICODE_JUNK c) line)"

text \<open>The pattern \<open>^([^:]+?):\s(.*)\<close> with \<open>DOTALL\<close>.\<close>

definition sender_rx :: rx where
  "sender_rx =
     seq [Grp 1 (RepLazy (\<lambda>x. x \<noteq> 58) 1 None), lit CHR '':'', Cls is_space,
          Grp 2 (Rep (\<lambda>x. True) 0 None)]"

text \<open>
  \<open>_extract_message\<close>. The flag \<open>time_first\<close> is the test
  \<open>pattern is _TIME_FIRST_PATTERN\<close>.
\<close>

definition extract_message :: "rmatch \<Rightarrow> ustring \<Rightarrow> bool \<Rightarrow> chat_message option" where
  "extract_message match line time_first =
     (let group1 = match_group match 1;
          group2 = match_group match 2;
          date_str = (if time_first then group2 else group1);
          time_str = (if time_first then group1 else group2)
      in case parse_timestamp date_str time_str of
           None \<Rightarrow> None
         | Some ts \<Rightarrow>
             let rest = drop (m_end match) line
             in (case rx_match sender_rx rest of
                   Some sender_match \<Rightarrow>
                     let sender_str = strip (match_group sender_match 1);
                         content_str = strip (match_group sender_match 2)
                     in Some \<lparr>timestamp = ts, sender = sender_str, content = content_str,
                              is_system = is_system_message content_str,
                              is_media = contains (u MEDIA_INDICATOR) (lower content_str)\<rparr>
                 | None \<Rightarrow>
                     Some \<lparr>timestamp = ts, sender = u ''System'', content = strip rest,
                           is_system = True, is_media = False\<rparr>))"

text \<open>
  The loop of \<open>_try_parse_line\<close> over the patterns; \<open>i\<close> is the index of the pattern
  at hand. The first pattern that matches decides, also when its timestamp does not parse.
\<close>

fun match_patterns :: "rx list \<Rightarrow> nat \<Rightarrow> ustring \<Rightarrow> chat_message option" where
  "match_patterns [] i line = None"
| "match_patterns (pattern # patterns) i line =
     (case rx_match pattern line of
        Some match \<Rightarrow> extract_message match line (i = 0)
      | None \<Rightarrow> match_patterns patterns (Suc i) line)"

text \<open>
  The same loop, stopped where the pattern matches: the index of the first pattern that
  matches the line, and its match.
\<close>

fun first_match :: "rx list \<Rightarrow> nat \<Rightarrow> ustring \<Rightarrow> (nat \<times> rmatch) option" where
  "first_match [] i line = None"
| "first_match (pattern # patterns) i line =
     (case rx_match pattern line of
        Some match \<Rightarrow> Some (i, match)
      | None \<Rightarrow> first_match patterns (Suc i) line)"

definition try_parse_line :: "ustring \<Rightarrow> chat_message option" where
  "try_parse_line line =
     (let line = clean_line line
      in if line = [] then None else match_patterns PATTERNS 0 line)"

text \<open>
  The loop of \<open>parse_text\<close>; the state is \<open>(msgs, current_msg)\<close>, the list \<open>messages\<close> and the message in progress. A continuation
  line is appended as it was read.
\<close>

type_synonym parse_state = "chat_message list \<times> chat_message option"

definition parse_step :: "parse_state \<Rightarrow> ustring \<Rightarrow> parse_state" where
  "parse_step st line =
     (case st of (msgs, current_msg) \<Rightarrow>
        (case try_parse_line line of
           Some parsed \<Rightarrow>
             ((case current_msg of Some cur \<Rightarrow> msgs @ [cur] | None \<Rightarrow> msgs),
              Some parsed)
         | None \<Rightarrow>
             (case current_msg of
                Some cur \<Rightarrow> (msgs, Some (cur\<lparr>content := content cur @ [10] @ line\<rparr>))
              | None \<Rightarrow> (msgs, None))))"

fun parse_loop :: "ustring list \<Rightarrow> parse_state \<Rightarrow> parse_state" where
  "parse_loop [] st = st"
| "parse_loop (line # lines) st = parse_loop lines (parse_step st line)"

definition parse_text :: "ustring \<Rightarrow> conversation" where
  "parse_text text =
     (case parse_loop (split_on 10 text) ([], None) of
        (msgs, current_msg) \<Rightarrow>
          \<lparr>messages = (case current_msg of Some cur \<Rightarrow> msgs @ [cur] | None \<Rightarrow> msgs)\<rparr>)"


section \<open>The chunker (analyzer/chunker.py)\<close>

text \<open>
  The loop of \<open>ConversationChunker.chunk\<close>, one message per step. The state is
  \<open>(chunks, current_messages, current_chars)\<close>.
\<close>

type_synonym chunk_state = "conversation list \<times> chat_message list \<times> int"

definition chunk_step :: "int \<Rightarrow> chunk_state \<Rightarrow> chat_message \<Rightarrow> chunk_state" where
  "chunk_step max_chars st message =
     (case st of (chunks, current_messages, current_chars) \<Rightarrow>
        let msg_text = str_message message;
            msg_len = int (length msg_text);
            st' = (if current_chars + msg_len > max_chars \<and> current_messages \<noteq> []
                   then (chunks @ [\<lparr>messages = current_messages\<rparr>], [], 0)
                   else (chunks, current_messages, current_chars))
        in (case st' of (chunks', current_messages', current_chars') \<Rightarrow>
              (chunks', current_messages' @ [message], current_chars' + (msg_len + 1))))"

fun chunk_loop :: "int \<Rightarrow> chat_message list \<Rightarrow> chunk_state \<Rightarrow> chunk_state" where
  "chunk_loop max_chars [] st = st"
| "chunk_loop max_chars (m # ms) st = chunk_loop max_chars ms (chunk_step max_chars st m)"

definition chunk :: "int \<Rightarrow> conversation \<Rightarrow> conversation list" where
  "chunk max_chars conv =
     (if messages conv = [] then []
      else (case chunk_loop max_chars (messages conv) ([], [], 0) of
              (chunks, current_messages, current_chars) \<Rightarrow>
                if current_messages \<noteq> [] then chunks @ [\<lparr>messages = current_messages\<rparr>]
                else chunks))"

definition needs_chunking :: "int \<Rightarrow> conversation \<Rightarrow> bool" where
  "needs_chunking max_chars conv = (int (length (to_text conv)) > max_chars)"

section \<open>Format dispatch (analyzer/core.py and the parsers' \<open>can_handle\<close>)\<close>

text \<open>
  What the parsers ask of the world outside: whether a path exists and is a file, the
  decoded text of a file, and the text the extraction libraries give for a document
  or an image. Each of these can fail: \<open>Path.exists\<close> and \<open>Path.is_file\<close> answer
  \<open>False\<close> for a path that is not there, and raise \<open>OSError\<close> for one the operating
  system refuses (a name that is too long, a directory that may not be searched).
\<close>

datatype error = ValueError | OSError | ExtractionError

record env =
  path_exists :: "ustring \<Rightarrow> error + bool"
  path_is_file :: "ustring \<Rightarrow> error + bool"
  file_text :: "ustring \<Rightarrow> error + ustring"
  document_text :: "ustring \<Rightarrow> error + ustring"
  image_text :: "ustring \<Rightarrow> ustring option"

text \<open>
  \<open>Path(source).suffix\<close> on a POSIX path: the name is the last component that is
  neither empty nor \<open>.\<close>, and the suffix starts at its last dot when that dot is
  neither the first nor the last character of the name.
\<close>

definition path_name :: "ustring \<Rightarrow> ustring" where
  "path_name source =
     (case filter (\<lambda>p. p \<noteq> [] \<and> p \<noteq> u ''.'') (split_on 47 source) of
        [] \<Rightarrow> []
      | p # ps \<Rightarrow> last (p # ps))"

definition path_suffix :: "ustring \<Rightarrow> ustring" where
  "path_suffix source =
     (let name = path_name source;
          after = takeWhile (\<lambda>c. c \<noteq> 46) (rev name)
      in if length after < length name \<and> after \<noteq> [] \<and> Suc (length after) < length name
         then 46 # rev after
         else [])"

definition IMAGE_EXTENSIONS :: "string list" where
  "IMAGE_EXTENSIONS = [''.png'', ''.jpg'', ''.jpeg'', ''.webp'', ''.bmp'', ''.tiff'']"

datatype parser = PDFParser | DocxParser | ImageParser | WhatsAppTextParser

text \<open>
  \<open>can_handle\<close> of each parser. \<open>a and path.exists()\<close> asks the file system only
  when \<open>a\<close> holds, and what \<open>path.exists()\<close> raises leaves \<open>can_handle\<close>. In the
  text parser, \<open>pattern.search\<close> on a pattern that starts with \<open>^\<close> (and no
  \<open>MULTILINE\<close>) can only match at the start of the string, as \<open>pattern.match\<close> does.
\<close>

definition can_handle :: "env \<Rightarrow> parser \<Rightarrow> ustring \<Rightarrow> error + bool" where
  "can_handle e p source =
     (case p of
        PDFParser \<Rightarrow>
          if lower (path_suffix source) = u ''.pdf'' then path_exists e source else Inr False
      | DocxParser \<Rightarrow>
          if lower (path_suffix source) = u ''.docx'' then path_exists e source else Inr False
      | ImageParser \<Rightarrow>
          if lower (path_suffix source) \<in> set (map u IMAGE_EXTENSIONS)
          then path_exists e source else Inr False
      | WhatsAppTextParser \<Rightarrow>
          (case (if path_suffix source = u ''.txt'' then path_exists e source else Inr False) of
             Inl err \<Rightarrow> Inl err
           | Inr True \<Rightarrow> Inr True
           | Inr False \<Rightarrow>
               let cleaned = filter (\<lambda>c. \<not> UNICODE_JUNK c) (take 1000 source)
               in Inr (list_ex (\<lambda>pattern. rx_match pattern cleaned \<noteq> None) PATTERNS)))"

text \<open>\<open>_read_source\<close>: the text of the file when the source is the path of a file.\<close>

definition read_source :: "env \<Rightarrow> ustring \<Rightarrow> error + ustring" where
  "read_source e source =
     (case path_exists e source of
        Inl err \<Rightarrow> Inl err
      | Inr False \<Rightarrow> Inr source
      | Inr True \<Rightarrow>
          (case path_is_file e source of
             Inl err \<Rightarrow> Inl err
           | Inr False \<Rightarrow> Inr source
           | Inr True \<Rightarrow> file_text e source))"

text \<open>\<open>parser.parse(source)\<close> of each parser.\<close>

definition parser_parse :: "env \<Rightarrow> parser \<Rightarrow> ustring \<Rightarrow> error + conversation" where
  "parser_parse e p source =
     (case p of
        PDFParser \<Rightarrow>
          (case document_text e source of Inl err \<Rightarrow> Inl err | Inr t \<Rightarrow> Inr (parse_text t))
      | DocxParser \<Rightarrow>
          (case document_text e source of Inl err \<Rightarrow> Inl err | Inr t \<Rightarrow> Inr (parse_text t))
      | ImageParser \<Rightarrow>
          (case image_text e source of
             None \<Rightarrow> Inr \<lparr>messages = []\<rparr>
           | Some t \<Rightarrow> Inr (parse_text t))
      | WhatsAppTextParser \<Rightarrow>
          (case read_source e source of Inl err \<Rightarrow> Inl err | Inr t \<Rightarrow> Inr (parse_text t)))"

definition PARSERS :: "parser list" where
  "PARSERS = [PDFParser, DocxParser, ImageParser, WhatsAppTextParser]"

text \<open>
  \<open>ChatAnalyzer.parse\<close>: the first parser that accepts the source parses it; when none
  does, \<open>ValueError\<close>. An error raised by a \<open>can_handle\<close> ends the loop.
\<close>

fun dispatch :: "env \<Rightarrow> parser list \<Rightarrow> ustring \<Rightarrow> error + conversation" where
  "dispatch e [] source = Inl ValueError"
| "dispatch e (p # ps) source =
     (case can_handle e p source of
        Inl err \<Rightarrow> Inl err
      | Inr True \<Rightarrow> parser_parse e p source
      | Inr False \<Rightarrow> dispatch e ps source)"

definition analyzer_parse :: "env \<Rightarrow> ustring \<Rightarrow> error + conversation" where
  "analyzer_parse e source = dispatch e PARSERS source"

text \<open>
  Whether some substring of a string matches a pattern: a match of the pattern that
  starts at some position.
\<close>

fun tails :: "ustring \<Rightarrow> ustring list" where
  "tails [] = [[]]"
| "tails (c # cs) = (c # cs) # tails cs"

definition matches_somewhere :: "rx \<Rightarrow> ustring \<Rightarrow> bool" where
  "matches_somewhere r s = list_ex (\<lambda>t. rx_match r t \<noteq> None) (tails s)"

section \<open>Sample data (tests/conftest.py)\<close>

definition mk_datetime :: "nat \<Rightarrow> nat \<Rightarrow> nat \<Rightarrow> nat \<Rightarrow> nat \<Rightarrow> datetime" where
  "mk_datetime y mo d h mi =
     \<lparr>dt_year = y, dt_month = mo, dt_day = d, dt_hour = h, dt_minute = mi, dt_second = 0,
      dt_microsecond = 0\<rparr>"

definition sample_system :: chat_message where
  "sample_system =
     \<lparr>timestamp = mk_datetime 2024 1 12 9 0, sender = u ''System'',
      content = u ''Messages and calls are end-to-end encrypted.'',
      is_system = True, is_media = False\<rparr>"

definition sample_alice :: chat_message where
  "sample_alice =
     \<lparr>timestamp = mk_datetime 2024 1 12 9 1, sender = u ''Alice'',
      content = u ''Hey everyone!'', is_system = False, is_media = False\<rparr>"

definition sample_bob :: chat_message where
  "sample_bob =
     \<lparr>timestamp = mk_datetime 2024 1 12 9 2, sender = u ''Bob'',
      content = u ''Hi Alice!'', is_system = False, is_media = False\<rparr>"

definition sample_charlie :: chat_message where
  "sample_charlie =
     \<lparr>timestamp = mk_datetime 2024 1 12 9 5, sender = u ''Charlie'',
      content = u ''Sounds good.'', is_system = False, is_media = False\<rparr>"

text \<open>A sender with a letter beyond ASCII: \<open>Jos\<close> and U+00E9.\<close>

definition sample_jose :: chat_message where
  "sample_jose =
     \<lparr>timestamp = mk_datetime 2024 1 12 9 3, sender = [74, 111, 115, 233],
      content = u ''Hola'', is_system = False, is_media = False\<rparr>"

definition sample_conversation :: conversation where
  "sample_conversation =
     \<lparr>messages = [sample_system, sample_alice, sample_bob, sample_charlie]\<rparr>"

text \<open>Lines and an environment used as examples below.\<close>

definition good_line :: ustring where
  "good_line = u ''12/01/2024, 09:01 - Alice: Hi''"

definition bad_line :: ustring where
  "bad_line = u ''99/99/2024, 09:01 - Bob: yo''"

definition media_line :: ustring where
  "media_line = u ''12/01/2024, 09:05 - Charlie: <Media omitted>''"

definition media_message :: chat_message where
  "media_message =
     \<lparr>timestamp = mk_datetime 2024 1 12 9 5, sender = u ''Charlie'',
      content = u ''<Media omitted>'', is_system = False, is_media = True\<rparr>"

text \<open>
  A file system without files, on which a name of more than 255 characters is refused, and
  a pasted text of 300 letters that ends in \<open>.pdf\<close>.
\<close>

definition name_too_long :: "ustring \<Rightarrow> bool" where
  "name_too_long p = list_ex (\<lambda>name. 255 < length name) (split_on 47 p)"

definition long_name_env :: env where
  "long_name_env =
     \<lparr>path_exists = (\<lambda>p. if name_too_long p then Inl OSError else Inr False),
      path_is_file = (\<lambda>p. if name_too_long p then Inl OSError else Inr False),
      file_text = (\<lambda>p. Inl OSError),
      document_text = (\<lambda>p. Inl ExtractionError),
      image_text = (\<lambda>p. None)\<rparr>"

definition long_text :: ustring where
  "long_text = replicate 300 97 @ u ''.pdf''"

section \<open>Auxiliary notions for the parser\<close>

text \<open>
  Two strings that are the same up to the kind of their lowercase sigmas (962, the final
  sigma, and 963).
\<close>

definition same_but_sigma :: "ustring \<Rightarrow> ustring \<Rightarrow> bool" where
  "same_but_sigma x y =
     list_all2 (\<lambda>p q. p = q \<or> (p = 962 \<or> p = 963) \<and> (q = 962 \<or> q = 963)) x y"

section \<open>Auxiliary notions for the chunker\<close>

text \<open>What \<open>current_chars\<close> holds for the messages of the chunk being built.\<close>

definition acc_chars :: "chat_message list \<Rightarrow> int" where
  "acc_chars ms = sum_list (map (\<lambda>m. int (length (str_message m)) + 1) ms)"

text \<open>
  The bound every chunk keeps: two or more messages serialise within the limit, and a
  message longer than the limit is alone.
\<close>

definition within_bound :: "int \<Rightarrow> chat_message list \<Rightarrow> bool" where
  "within_bound mx ms =
     ((2 \<le> length ms \<longrightarrow> int (length (join [10] (map str_message ms))) \<le> mx) \<and>
      (\<forall>m \<in> set ms. mx < int (length (str_message m)) \<longrightarrow> ms = [m]))"

section \<open>Properties of the chunker\<close>

lemma chunk_step_unfold:
  "chunk_step mx (chunks, cur, chars) m =
     (if chars + int (length (str_message m)) > mx \<and> cur \<noteq> []
      then (chunks @ [\<lparr>messages = cur\<rparr>], [m], int (length (str_message m)) + 1)
      else (chunks, cur @ [m], chars + (int (length (str_message m)) + 1)))"
  unfolding chunk_step_def Let_def by simp

lemma chunk_loop_concat:
  "chunk_loop mx ms (chunks, cur, chars) = (chunks', cur', chars') \<Longrightarrow>
   concat (map messages chunks') @ cur' = concat (map messages chunks) @ cur @ ms"
proof (induction ms arbitrary: chunks cur chars)
  case Nil
  then show ?case by simp
next
  case (Cons m ms)
  show ?case
  proof (cases "chars + int (length (str_message m)) > mx \<and> cur \<noteq> []")
    case True
    with Cons.prems have "chunk_loop mx ms (chunks @ [\<lparr>messages = cur\<rparr>], [m], int (length (str_message m)) + 1) = (chunks', cur', chars')"
      by (simp add: chunk_step_unfold)
    from Cons.IH[OF this] show ?thesis by simp
  next
    case False
    with Cons.prems have "chunk_loop mx ms (chunks, cur @ [m], chars + (int (length (str_message m)) + 1)) = (chunks', cur', chars')"
      by (simp add: chunk_step_unfold)
    from Cons.IH[OF this] show ?thesis by simp
  qed
qed

lemma chunk_loop_nonempty:
  "chunk_loop mx ms (chunks, cur, chars) = (chunks', cur', chars') \<Longrightarrow>
   \<forall>c \<in> set chunks. messages c \<noteq> [] \<Longrightarrow> \<forall>c \<in> set chunks'. messages c \<noteq> []"
proof (induction ms arbitrary: chunks cur chars)
  case Nil
  then show ?case by simp
next
  case (Cons m ms)
  show ?case
  proof (cases "chars + int (length (str_message m)) > mx \<and> cur \<noteq> []")
    case True
    with Cons.prems(1) have "chunk_loop mx ms (chunks @ [\<lparr>messages = cur\<rparr>], [m], int (length (str_message m)) + 1) = (chunks', cur', chars')"
      by (simp add: chunk_step_unfold)
    moreover have "\<forall>c \<in> set (chunks @ [\<lparr>messages = cur\<rparr>]). messages c \<noteq> []"
      using True Cons.prems(2) by simp
    ultimately show ?thesis by (rule Cons.IH)
  next
    case False
    with Cons.prems(1) have "chunk_loop mx ms (chunks, cur @ [m], chars + (int (length (str_message m)) + 1)) = (chunks', cur', chars')"
      by (simp add: chunk_step_unfold)
    from this Cons.prems(2) show ?thesis by (rule Cons.IH)
  qed
qed


lemma chunk_nonempty: "\<forall>c \<in> set (chunk mx conv). messages c \<noteq> []"
proof -
  obtain chunks cur chars where L: "chunk_loop mx (messages conv) ([], [], 0) = (chunks, cur, chars)"
    using prod_cases3 by blast
  have "\<forall>c \<in> set chunks. messages c \<noteq> []"
    using chunk_loop_nonempty[OF L] by simp
  then show ?thesis by (simp add: chunk_def L)
qed

lemma chunk_concat: "concat (map messages (chunk mx conv)) = messages conv"
proof -
  obtain chunks cur chars where L: "chunk_loop mx (messages conv) ([], [], 0) = (chunks, cur, chars)"
    using prod_cases3 by blast
  have "concat (map messages chunks) @ cur = messages conv"
    using chunk_loop_concat[OF L] by simp
  then show ?thesis by (cases "cur = []") (auto simp add: chunk_def L)
qed

lemma sample_lengths:
  "length (str_message sample_system) = 63"
  "length (str_message sample_alice) = 39"
  "length (str_message sample_bob) = 33"
  "length (str_message sample_charlie) = 40"
  by (simp_all add: str_message_def sample_system_def sample_alice_def sample_bob_def
      sample_charlie_def fmt_timestamp_def zpad_def dec.simps u_def mk_datetime_def)

lemma chunk_sample_80:
  "chunk 80 sample_conversation =
     [\<lparr>messages = [sample_system]\<rparr>, \<lparr>messages = [sample_alice, sample_bob]\<rparr>,
      \<lparr>messages = [sample_charlie]\<rparr>]"
  by (simp add: chunk_def sample_conversation_def chunk_step_unfold sample_lengths)

lemma chunk_sample_60:
  "chunk 60 sample_conversation =
     [\<lparr>messages = [sample_system]\<rparr>, \<lparr>messages = [sample_alice]\<rparr>,
      \<lparr>messages = [sample_bob]\<rparr>, \<lparr>messages = [sample_charlie]\<rparr>]"
  by (simp add: chunk_def sample_conversation_def chunk_step_unfold sample_lengths)


text \<open>
  C1. For every conversation and every limit of at least 1, the message lists of the
  chunks, concatenated in order, are the message list of the input, so the chunk sizes add
  up to the number of messages; no chunk is empty; and a conversation without messages
  gives the empty list of chunks.
\<close>

theorem chunk_round_trip:
  assumes "1 \<le> max_chars"
  shows "concat (map messages (chunk max_chars conv)) = messages conv \<and>
         sum_list (map (\<lambda>c. length (messages c)) (chunk max_chars conv)) = length (messages conv) \<and>
         (\<forall>c \<in> set (chunk max_chars conv). messages c \<noteq> []) \<and>
         (messages conv = [] \<longrightarrow> chunk max_chars conv = [])"
proof -
  have 1: "concat (map messages (chunk max_chars conv)) = messages conv"
    by (rule chunk_concat)
  have "length (concat (map messages (chunk max_chars conv))) = length (messages conv)"
    using 1 by simp
  then have 2: "sum_list (map (\<lambda>c. length (messages c)) (chunk max_chars conv)) = length (messages conv)"
    by (simp add: length_concat comp_def)
  have 4: "messages conv = [] \<longrightarrow> chunk max_chars conv = []"
    by (simp add: chunk_def)
  show ?thesis using 1 2 chunk_nonempty[of max_chars conv] 4 by blast
qed

theorem chunk_round_trip_witness:
  "(1::int) \<le> 80 \<and>
   map (\<lambda>c. length (messages c)) (chunk 80 sample_conversation) = [1, 2, 1] \<and>
   chunk 80 \<lparr>messages = []\<rparr> = [] \<and>
   concat (map messages (chunk 80 sample_conversation)) = messages sample_conversation \<and>
   sum_list (map (\<lambda>c. length (messages c)) (chunk 80 sample_conversation)) =
     length (messages sample_conversation) \<and>
   list_all (\<lambda>c. messages c \<noteq> []) (chunk 80 sample_conversation)"
proof -
  have h: "(1::int) \<le> 80" by simp
  have e: "map (\<lambda>c. length (messages c)) (chunk 80 sample_conversation) = [1, 2, 1]"
    by (simp add: chunk_sample_80)
  have n: "chunk 80 \<lparr>messages = []\<rparr> = []"
    using chunk_round_trip[OF h, of "\<lparr>messages = []\<rparr>"] by simp
  have a: "list_all (\<lambda>c. messages c \<noteq> []) (chunk 80 sample_conversation)"
    using chunk_round_trip[OF h, of sample_conversation] unfolding list_all_iff by blast
  show ?thesis using h e n a chunk_round_trip[OF h, of sample_conversation] by blast
qed

lemma length_join_nl:
  "xs \<noteq> [] \<Longrightarrow> int (length (join [10] xs)) + 1 = sum_list (map (\<lambda>x. int (length x) + 1) xs)"
  by (induction "[10::nat]" xs rule: join.induct) simp_all

lemma length_join_messages:
  "ms \<noteq> [] \<Longrightarrow> int (length (join [10] (map str_message ms))) + 1 = acc_chars ms"
  using length_join_nl[of "map str_message ms"] by (simp add: acc_chars_def comp_def)

lemma acc_chars_append: "acc_chars (xs @ ys) = acc_chars xs + acc_chars ys"
  by (simp add: acc_chars_def)

lemma acc_chars_single: "acc_chars [m] = int (length (str_message m)) + 1"
  by (simp add: acc_chars_def)

lemma acc_chars_nonneg: "0 \<le> acc_chars ms"
  by (induction ms) (simp_all add: acc_chars_def)

lemma acc_chars_pos: "ms \<noteq> [] \<Longrightarrow> 1 \<le> acc_chars ms"
  using acc_chars_nonneg[of "tl ms"] by (cases ms) (simp_all add: acc_chars_def)

lemma within_bound_single: "within_bound mx [m]"
  by (simp add: within_bound_def)

lemma within_bound_nil: "within_bound mx []"
  by (simp add: within_bound_def)

lemma within_bound_extend:
  assumes ok: "within_bound mx cur" and ne: "cur \<noteq> []"
    and fit: "\<not> mx < acc_chars cur + int (length (str_message m))"
  shows "within_bound mx (cur @ [m])"
proof -
  have pos: "1 \<le> acc_chars cur" using ne by (rule acc_chars_pos)
  have "int (length (join [10] (map str_message (cur @ [m])))) + 1 = acc_chars (cur @ [m])"
    by (rule length_join_messages) simp
  then have len: "int (length (join [10] (map str_message (cur @ [m])))) \<le> mx"
    using fit by (simp add: acc_chars_append acc_chars_single)
  have no_big: "\<not> mx < int (length (str_message m'))" if "m' \<in> set (cur @ [m])" for m'
  proof (cases "m' = m")
    case True
    then show ?thesis using fit pos by simp
  next
    case False
    with that have mem: "m' \<in> set cur" by simp
    show ?thesis
    proof
      assume big: "mx < int (length (str_message m'))"
      with ok mem have "cur = [m']" by (simp add: within_bound_def)
      then have "acc_chars cur = int (length (str_message m')) + 1" by (simp add: acc_chars_single)
      with big fit show False by simp
    qed
  qed
  show ?thesis unfolding within_bound_def using len no_big by blast
qed

lemma chunk_loop_within_bound:
  "chunk_loop mx ms (chunks, cur, chars) = (chunks', cur', chars') \<Longrightarrow>
   chars = acc_chars cur \<Longrightarrow>
   \<forall>c \<in> set chunks. within_bound mx (messages c) \<Longrightarrow>
   within_bound mx cur \<Longrightarrow>
   (\<forall>c \<in> set chunks'. within_bound mx (messages c)) \<and> within_bound mx cur'"
proof (induction ms arbitrary: chunks cur chars)
  case Nil
  then show ?case by simp
next
  case (Cons m ms)
  show ?case
  proof (cases "chars + int (length (str_message m)) > mx \<and> cur \<noteq> []")
    case True
    with Cons.prems(1) have "chunk_loop mx ms (chunks @ [\<lparr>messages = cur\<rparr>], [m], int (length (str_message m)) + 1) = (chunks', cur', chars')"
      by (simp add: chunk_step_unfold)
    moreover have "int (length (str_message m)) + 1 = acc_chars [m]"
      by (simp add: acc_chars_single)
    moreover have "\<forall>c \<in> set (chunks @ [\<lparr>messages = cur\<rparr>]). within_bound mx (messages c)"
      using Cons.prems(3,4) by simp
    moreover have "within_bound mx [m]" by (rule within_bound_single)
    ultimately show ?thesis by (rule Cons.IH)
  next
    case False
    with Cons.prems(1) have "chunk_loop mx ms (chunks, cur @ [m], chars + (int (length (str_message m)) + 1)) = (chunks', cur', chars')"
      by (simp add: chunk_step_unfold)
    moreover have "chars + (int (length (str_message m)) + 1) = acc_chars (cur @ [m])"
      using Cons.prems(2) by (simp add: acc_chars_append acc_chars_single)
    moreover note Cons.prems(3)
    moreover have "within_bound mx (cur @ [m])"
    proof (cases "cur = []")
      case True
      then show ?thesis by (simp add: within_bound_single)
    next
      case ne: False
      with False have "\<not> mx < acc_chars cur + int (length (str_message m))"
        using Cons.prems(2) by simp
      with Cons.prems(4) ne show ?thesis by (rule within_bound_extend)
    qed
    ultimately show ?thesis by (rule Cons.IH)
  qed
qed

lemma chunk_within_bound: "\<forall>c \<in> set (chunk mx conv). within_bound mx (messages c)"
proof -
  obtain chunks cur chars where L: "chunk_loop mx (messages conv) ([], [], 0) = (chunks, cur, chars)"
    using prod_cases3 by blast
  have "(\<forall>c \<in> set chunks. within_bound mx (messages c)) \<and> within_bound mx cur"
    using L by (rule chunk_loop_within_bound) (simp_all add: acc_chars_def within_bound_nil)
  then show ?thesis by (simp add: chunk_def L)
qed


text \<open>
  C2. For every conversation and every limit of at least 1: a chunk of two or more
  messages serialises (\<open>to_text\<close>) to at most the limit, so only a chunk of a single
  message can exceed it; a message longer than the limit is the only message of its
  chunk; and one step of the loop closes the current chunk exactly when the accumulated
  length plus the length of the candidate exceeds the limit and the current chunk is
  not empty, and then always appends the candidate whole.
\<close>

theorem chunk_size_bound:
  assumes "1 \<le> max_chars"
  shows "(\<forall>c \<in> set (chunk max_chars conv).
            (2 \<le> length (messages c) \<longrightarrow> int (length (to_text c)) \<le> max_chars) \<and>
            (max_chars < int (length (to_text c)) \<longrightarrow> length (messages c) = 1) \<and>
            (\<forall>m \<in> set (messages c).
               max_chars < int (length (str_message m)) \<longrightarrow> messages c = [m])) \<and>
         (\<forall>chunks cur chars m.
            chunk_step max_chars (chunks, cur, chars) m =
              (if max_chars < chars + int (length (str_message m)) \<and> cur \<noteq> []
               then (chunks @ [\<lparr>messages = cur\<rparr>], [m], int (length (str_message m)) + 1)
               else (chunks, cur @ [m], chars + (int (length (str_message m)) + 1))))"
proof -
  have A: "(2 \<le> length (messages c) \<longrightarrow> int (length (to_text c)) \<le> max_chars) \<and>
            (max_chars < int (length (to_text c)) \<longrightarrow> length (messages c) = 1) \<and>
            (\<forall>m \<in> set (messages c).
               max_chars < int (length (str_message m)) \<longrightarrow> messages c = [m])"
    if mem: "c \<in> set (chunk max_chars conv)" for c
  proof -
    have wb: "within_bound max_chars (messages c)"
      using chunk_within_bound mem by blast
    have ne: "messages c \<noteq> []"
      using chunk_nonempty mem by blast
    have 1: "2 \<le> length (messages c) \<longrightarrow> int (length (to_text c)) \<le> max_chars"
      using wb by (simp add: within_bound_def to_text_def)
    have "length (messages c) \<noteq> 0" using ne by simp
    with 1 have 2: "max_chars < int (length (to_text c)) \<longrightarrow> length (messages c) = 1"
      by linarith
    have 3: "\<forall>m \<in> set (messages c). max_chars < int (length (str_message m)) \<longrightarrow> messages c = [m]"
      using wb by (simp add: within_bound_def)
    show ?thesis using 1 2 3 by blast
  qed
  show ?thesis using A by (simp add: chunk_step_unfold)
qed

theorem chunk_size_bound_witness:
  "(1::int) \<le> 60 \<and> (1::int) \<le> 80 \<and>
   \<lparr>messages = [sample_alice, sample_bob]\<rparr> \<in> set (chunk 80 sample_conversation) \<and>
   int (length (to_text \<lparr>messages = [sample_alice, sample_bob]\<rparr>)) \<le> 80 \<and>
   \<lparr>messages = [sample_system]\<rparr> \<in> set (chunk 60 sample_conversation) \<and>
   60 < int (length (to_text \<lparr>messages = [sample_system]\<rparr>)) \<and>
   list_all (\<lambda>c. 60 < int (length (to_text c)) \<or> int (length (to_text c)) \<le> 60)
     (chunk 60 sample_conversation)"
proof -
  have h60: "(1::int) \<le> 60" and h80: "(1::int) \<le> 80" by simp_all
  have m80: "\<lparr>messages = [sample_alice, sample_bob]\<rparr> \<in> set (chunk 80 sample_conversation)"
    by (simp add: chunk_sample_80)
  have two: "2 \<le> length (messages \<lparr>messages = [sample_alice, sample_bob]\<rparr>)" by simp
  have b80: "int (length (to_text \<lparr>messages = [sample_alice, sample_bob]\<rparr>)) \<le> 80"
    using chunk_size_bound[OF h80, of sample_conversation] m80 two by blast
  have m60: "\<lparr>messages = [sample_system]\<rparr> \<in> set (chunk 60 sample_conversation)"
    by (simp add: chunk_sample_60)
  have big: "60 < int (length (to_text \<lparr>messages = [sample_system]\<rparr>))"
    by (simp add: to_text_def sample_lengths)
  have all: "list_all (\<lambda>c. 60 < int (length (to_text c)) \<or> int (length (to_text c)) \<le> 60)
     (chunk 60 sample_conversation)"
    unfolding list_all_iff by auto
  show ?thesis using h60 h80 m80 b80 m60 big all by blast
qed

section \<open>Properties of the filters\<close>

lemma participant_loop_filter:
  "participant_loop p ms acc =
     acc @ filter (\<lambda>m. lower (sender m) = lower p \<or> is_system m) ms"
  by (induction ms arbitrary: acc) simp_all

lemma dt_lt_iff: "dt_lt a b = (\<not> dt_le b a)"
  by (simp add: dt_lt_def dt_le_def not_le)

lemma u_eq_iff: "(u a = u b) = (a = b)"
  by (simp add: u_def inj_map_eq_map inj_on_def)

lemma date_range_loop_filter:
  "date_range_loop start end ms acc =
     acc @ filter (\<lambda>m. (case start of None \<Rightarrow> True | Some s \<Rightarrow> dt_le s (timestamp m)) \<and>
                       (case end of None \<Rightarrow> True | Some e \<Rightarrow> dt_le (timestamp m) e)) ms"
  by (induction ms arbitrary: acc) (auto simp add: dt_lt_iff split: option.splits)

lemmas lower_eval =
  lower_def lower_cp_def case_ignorable_def cased_def cased_follows_def

lemmas lower_tables =
  in_ranges_def lower_runs_def case_ignorable_ranges_def cased_ranges_def

lemma lower_cp_nonempty: "lower_cp c \<noteq> []"
  by (simp add: lower_cp_def split: option.splits)

lemma lower_empty: "(lower s = lower []) = (s = [])"
  by (cases s) (simp_all add: lower_def lower_cp_nonempty)

lemma sample_lower:
  "lower (sender sample_system) = u ''system''"
  "lower (sender sample_alice) = u ''alice''"
  "lower (sender sample_bob) = u ''bob''"
  "lower (sender sample_charlie) = u ''charlie''"
  "lower (u ''ALICE'') = u ''alice''"
  by (simp_all add: sample_system_def sample_alice_def sample_bob_def sample_charlie_def
      lower_eval u_def)

lemma jose_lower:
  "lower (sender sample_jose) = [106, 111, 115, 233]"
  "lower [74, 79, 83, 201] = [106, 111, 115, 233]"
  by (simp_all add: sample_jose_def lower_eval lower_tables)

lemma sample_flags:
  "is_system sample_system" "\<not> is_system sample_alice" "\<not> is_system sample_bob"
  "\<not> is_system sample_charlie"
  by (simp_all add: sample_system_def sample_alice_def sample_bob_def sample_charlie_def)

lemma sample_senders_nonempty:
  "sender sample_alice \<noteq> []" "sender sample_bob \<noteq> []" "sender sample_charlie \<noteq> []"
  by (simp_all add: sample_alice_def sample_bob_def sample_charlie_def u_def)



text \<open>
  C7. \<open>filter_by_participant c p\<close> holds exactly the messages of \<open>c\<close> whose sender
  equals \<open>p\<close> up to case or that are system messages, in their original order; as a
  method on objects it allocates a new Conversation and leaves the store as it was, the
  receiver included.
\<close>

theorem filter_by_participant_spec:
  "messages (filter_by_participant c p) =
     filter (\<lambda>m. lower (sender m) = lower p \<or> is_system m) (messages c) \<and>
   (\<forall>m \<in> set (messages c). is_system m \<longrightarrow> m \<in> set (messages (filter_by_participant c p))) \<and>
   (self < length h \<longrightarrow>
      (case filter_by_participant_obj h self p of
         (h', r) \<Rightarrow> r \<noteq> self \<and> take (length h) h' = h \<and> h' ! self = h ! self \<and>
                    messages (h' ! self) = messages (h ! self) \<and>
                    h' ! r = filter_by_participant (h ! self) p))"
  by (simp add: filter_by_participant_def participant_loop_filter filter_by_participant_obj_def
      new_conversation_def nth_append)

theorem filter_by_participant_spec_witness:
  "messages (filter_by_participant sample_conversation (u ''ALICE'')) =
     [sample_system, sample_alice] \<and>
   messages (filter_by_participant \<lparr>messages = [sample_jose, sample_bob]\<rparr> [74, 79, 83, 201]) =
     [sample_jose] \<and>
   (0::nat) < length [sample_conversation] \<and>
   filter_by_participant_obj [sample_conversation] 0 (u ''ALICE'') =
     ([sample_conversation, \<lparr>messages = [sample_system, sample_alice]\<rparr>], 1)"
proof -
  have f: "filter (\<lambda>m. lower (sender m) = lower (u ''ALICE'') \<or> is_system m)
             (messages sample_conversation) = [sample_system, sample_alice]"
    by (simp add: sample_conversation_def sample_lower sample_flags u_eq_iff)
  have m: "messages (filter_by_participant sample_conversation (u ''ALICE'')) =
     [sample_system, sample_alice]"
    using filter_by_participant_spec[of sample_conversation "u ''ALICE''" 0 "[sample_conversation]"] f
    by simp
  then have c: "filter_by_participant sample_conversation (u ''ALICE'') =
     \<lparr>messages = [sample_system, sample_alice]\<rparr>"
    by (simp add: filter_by_participant_def)
  have g: "filter (\<lambda>m. lower (sender m) = lower [74, 79, 83, 201] \<or> is_system m)
             (messages \<lparr>messages = [sample_jose, sample_bob]\<rparr>) = [sample_jose]"
    by (simp add: jose_lower sample_lower sample_flags u_def)
  have j: "messages (filter_by_participant \<lparr>messages = [sample_jose, sample_bob]\<rparr>
             [74, 79, 83, 201]) = [sample_jose]"
    using filter_by_participant_spec[of "\<lparr>messages = [sample_jose, sample_bob]\<rparr>"
        "[74, 79, 83, 201]" 0 "[sample_conversation]"] g
    by simp
  show ?thesis using m c j
    by (simp add: filter_by_participant_obj_def new_conversation_def)
qed



text \<open>
  C10. Through \<open>apply_filters\<close> the empty string is the same as no participant: the
  result is the conversation filtered by date only. \<open>filter_by_participant\<close> called
  with the empty string keeps the messages whose sender is empty and the system
  messages, which on the sample conversation is not the whole conversation.
\<close>

theorem apply_filters_empty_participant:
  "apply_filters c (Some []) start end = filter_by_date_range c start end \<and>
   apply_filters c (Some []) start end = apply_filters c None start end \<and>
   messages (filter_by_participant c []) =
     filter (\<lambda>m. sender m = [] \<or> is_system m) (messages c) \<and>
   messages (filter_by_participant sample_conversation []) = [sample_system] \<and>
   apply_filters sample_conversation (Some []) None None = sample_conversation \<and>
   filter_by_participant sample_conversation [] \<noteq>
     apply_filters sample_conversation (Some []) None None"
proof -
  have dr: "filter_by_date_range c None None = c" for c :: conversation
    by (simp add: filter_by_date_range_def date_range_loop_filter)
  have 1: "apply_filters c (Some []) start end = filter_by_date_range c start end"
    by (cases start; cases "end") (simp_all add: apply_filters_def dr)
  have 2: "apply_filters c (Some []) start end = apply_filters c None start end"
    by (simp add: apply_filters_def)
  have 3: "messages (filter_by_participant c []) =
     filter (\<lambda>m. sender m = [] \<or> is_system m) (messages c)" for c
    using lower_empty by (simp add: filter_by_participant_def participant_loop_filter)
  have 4: "messages (filter_by_participant sample_conversation []) = [sample_system]"
    by (simp add: 3 sample_conversation_def sample_flags sample_senders_nonempty)
  have 5: "apply_filters sample_conversation (Some []) None None = sample_conversation"
    by (simp add: apply_filters_def)
  have "messages sample_conversation \<noteq> [sample_system]"
    by (simp add: sample_conversation_def)
  with 4 5 have 6: "filter_by_participant sample_conversation [] \<noteq>
     apply_filters sample_conversation (Some []) None None"
    by auto
  show ?thesis using 1 2 3 4 5 6 by blast
qed

theorem apply_filters_empty_participant_witness:
  "apply_filters sample_conversation (Some [])
      (Some (mk_datetime 2024 1 12 9 1)) (Some (mk_datetime 2024 1 12 9 2)) =
     filter_by_date_range sample_conversation
      (Some (mk_datetime 2024 1 12 9 1)) (Some (mk_datetime 2024 1 12 9 2)) \<and>
   apply_filters sample_conversation (Some []) None None = sample_conversation \<and>
   messages (filter_by_participant sample_conversation []) = [sample_system]"
  using apply_filters_empty_participant[of sample_conversation "Some (mk_datetime 2024 1 12 9 1)"
      "Some (mk_datetime 2024 1 12 9 2)"]
  by blast

section \<open>Properties of the parser\<close>

lemmas rx_eval =
  rx_match_def lit_def one_of_def in_range_def rep_candidates_def is_digit_def is_space_def
  date_rx_def time_rx_def ampm_rx_def dash_rx_def sender_rx_def match_group_def

lemmas strptime_eval =
  strptime_def directive_def found_def py_int_def digit_val_def make_datetime_def
  days_in_month_def is_leap_def lower_eval

lemmas parser_eval =
  parse_text_def parse_step_def try_parse_line_def clean_line_def strip_def UNICODE_JUNK_def
  PATTERNS_def extract_message_def parse_timestamp_def DATE_FORMATS_def
  is_system_message_def SYSTEM_INDICATORS_def MEDIA_INDICATOR_def


lemma try_formats_first:
  "try_formats fmts combined = Some d \<Longrightarrow>
   \<exists>n < length fmts. strptime combined (fmts ! n) = Some d \<and>
                      (\<forall>j < n. strptime combined (fmts ! j) = None)"
proof (induction fmts)
  case Nil
  then show ?case by simp
next
  case (Cons f fs)
  show ?case
  proof (cases "strptime combined f")
    case (Some d')
    with Cons.prems have "strptime combined ((f # fs) ! 0) = Some d" by simp
    then show ?thesis by force
  next
    case None
    with Cons.prems have "try_formats fs combined = Some d" by simp
    then obtain n where n: "n < length fs" "strptime combined (fs ! n) = Some d"
      "\<forall>j < n. strptime combined (fs ! j) = None"
      using Cons.IH by blast
    have "\<forall>j < Suc n. strptime combined ((f # fs) ! j) = None"
    proof (intro allI impI)
      fix j assume "j < Suc n"
      then show "strptime combined ((f # fs) ! j) = None"
        using None n(3) by (cases j) simp_all
    qed
    with n(1,2) have "Suc n < length (f # fs) \<and> strptime combined ((f # fs) ! Suc n) = Some d \<and>
        (\<forall>j < Suc n. strptime combined ((f # fs) ! j) = None)"
      by simp
    then show ?thesis by blast
  qed
qed

lemma extract_message_parse_timestamp:
  "extract_message mt line tf = Some m \<Longrightarrow>
   parse_timestamp (if tf then match_group mt 2 else match_group mt 1)
     (if tf then match_group mt 1 else match_group mt 2) = Some (timestamp m)"
  unfolding extract_message_def Let_def
  by (auto split: option.splits)

lemma match_patterns_first_match:
  "match_patterns ps i line =
     (case first_match ps i line of
        None \<Rightarrow> None
      | Some (k, mt) \<Rightarrow> extract_message mt line (k = 0))"
  by (induction ps arbitrary: i) (auto split: option.splits)

lemma try_parse_line_first_match:
  "try_parse_line line = Some m \<Longrightarrow>
   \<exists>k mt. first_match PATTERNS 0 (clean_line line) = Some (k, mt) \<and>
          extract_message mt (clean_line line) (k = 0) = Some m"
  unfolding try_parse_line_def Let_def match_patterns_first_match
  by (auto split: if_splits option.splits)

lemma try_parse_line_extract:
  "try_parse_line line = Some m \<Longrightarrow> \<exists>mt l tf. extract_message mt l tf = Some m"
  using try_parse_line_first_match by blast

text \<open>
  The timestamp of the message a line gives is what \<open>_parse_timestamp\<close> returns for the
  date and time the first matching pattern captured in that line: the value of
  \<open>strptime\<close> for the first format of the list that parses them.
\<close>

lemma try_parse_line_timestamp:
  assumes "try_parse_line line = Some m"
  shows "\<exists>k mt n.
           first_match PATTERNS 0 (clean_line line) = Some (k, mt) \<and>
           parse_timestamp (if k = 0 then match_group mt 2 else match_group mt 1)
             (if k = 0 then match_group mt 1 else match_group mt 2) = Some (timestamp m) \<and>
           n < length DATE_FORMATS \<and>
           strptime ((if k = 0 then match_group mt 2 else match_group mt 1) @ u '', '' @
                     strip (if k = 0 then match_group mt 1 else match_group mt 2))
             (DATE_FORMATS ! n) = Some (timestamp m) \<and>
           (\<forall>j < n.
              strptime ((if k = 0 then match_group mt 2 else match_group mt 1) @ u '', '' @
                        strip (if k = 0 then match_group mt 1 else match_group mt 2))
                (DATE_FORMATS ! j) = None)"
proof -
  from assms obtain k mt where fm: "first_match PATTERNS 0 (clean_line line) = Some (k, mt)"
    and ex: "extract_message mt (clean_line line) (k = 0) = Some m"
    using try_parse_line_first_match by blast
  let ?d = "if k = 0 then match_group mt 2 else match_group mt 1"
  let ?t = "if k = 0 then match_group mt 1 else match_group mt 2"
  from ex have pt: "parse_timestamp ?d ?t = Some (timestamp m)"
    by (rule extract_message_parse_timestamp)
  then have "try_formats DATE_FORMATS (?d @ u '', '' @ strip ?t) = Some (timestamp m)"
    by (simp add: parse_timestamp_def)
  then obtain n where "n < length DATE_FORMATS"
    "strptime (?d @ u '', '' @ strip ?t) (DATE_FORMATS ! n) = Some (timestamp m)"
    "\<forall>j < n. strptime (?d @ u '', '' @ strip ?t) (DATE_FORMATS ! j) = None"
    using try_formats_first by blast
  with fm pt show ?thesis by blast
qed

lemma parse_step_cases:
  "parse_step (msgs, cur) line =
     (case try_parse_line line of
        Some parsed \<Rightarrow> ((case cur of Some c \<Rightarrow> msgs @ [c] | None \<Rightarrow> msgs), Some parsed)
      | None \<Rightarrow>
          (case cur of
             Some c \<Rightarrow> (msgs, Some (c\<lparr>content := content c @ [10] @ line\<rparr>))
           | None \<Rightarrow> (msgs, None)))"
  by (simp add: parse_step_def)

text \<open>
  An invariant of the loop of \<open>parse_text\<close>: a property that every message started by
  a line of the input has, and that appending to the content keeps, holds of every message
  of the result.
\<close>

lemma parse_loop_invariant:
  assumes new: "\<And>line m. line \<in> L \<Longrightarrow> try_parse_line line = Some m \<Longrightarrow> Q m"
    and app: "\<And>m x. Q m \<Longrightarrow> Q (m\<lparr>content := content m @ x\<rparr>)"
  shows "parse_loop lines (msgs, cur) = (msgs', cur') \<Longrightarrow> set lines \<subseteq> L \<Longrightarrow>
         \<forall>m \<in> set msgs. Q m \<Longrightarrow> (\<forall>m. cur = Some m \<longrightarrow> Q m) \<Longrightarrow>
         (\<forall>m \<in> set msgs'. Q m) \<and> (\<forall>m. cur' = Some m \<longrightarrow> Q m)"
proof (induction lines arbitrary: msgs cur)
  case Nil
  then show ?case by simp
next
  case (Cons line lines)
  obtain msgs1 cur1 where step: "parse_step (msgs, cur) line = (msgs1, cur1)"
    by (cases "parse_step (msgs, cur) line") auto
  have mem: "line \<in> L" and rest: "set lines \<subseteq> L"
    using Cons.prems(2) by simp_all
  have inv: "(\<forall>m \<in> set msgs1. Q m) \<and> (\<forall>m. cur1 = Some m \<longrightarrow> Q m)"
  proof (cases "try_parse_line line")
    case None
    then show ?thesis
      using step Cons.prems(3,4) app by (cases cur) (auto simp add: parse_step_cases)
  next
    case (Some parsed)
    with mem have "Q parsed" by (rule new)
    then show ?thesis
      using step Some Cons.prems(3,4) by (cases cur) (auto simp add: parse_step_cases)
  qed
  from Cons.prems(1) step have "parse_loop lines (msgs1, cur1) = (msgs', cur')" by simp
  from Cons.IH[OF this rest] inv show ?case by blast
qed

lemma parse_text_invariant:
  assumes new: "\<And>line m. line \<in> set (split_on 10 input) \<Longrightarrow> try_parse_line line = Some m \<Longrightarrow> Q m"
    and app: "\<And>m x. Q m \<Longrightarrow> Q (m\<lparr>content := content m @ x\<rparr>)"
  shows "\<forall>m \<in> set (messages (parse_text input)). Q m"
proof -
  obtain msgs cur where L: "parse_loop (split_on 10 input) ([], None) = (msgs, cur)"
    by (cases "parse_loop (split_on 10 input) ([], None)") auto
  have "(\<forall>m \<in> set msgs. Q m) \<and> (\<forall>m. cur = Some m \<longrightarrow> Q m)"
    using parse_loop_invariant[of "set (split_on 10 input)" Q, OF new app L] by simp
  then show ?thesis by (cases cur) (auto simp add: parse_text_def L)
qed

lemma parse_text_timestamps:
  "\<forall>m \<in> set (messages (parse_text input)).
     \<exists>line \<in> set (split_on 10 input). \<exists>k mt n.
       first_match PATTERNS 0 (clean_line line) = Some (k, mt) \<and>
       parse_timestamp (if k = 0 then match_group mt 2 else match_group mt 1)
         (if k = 0 then match_group mt 1 else match_group mt 2) = Some (timestamp m) \<and>
       n < length DATE_FORMATS \<and>
       strptime ((if k = 0 then match_group mt 2 else match_group mt 1) @ u '', '' @
                 strip (if k = 0 then match_group mt 1 else match_group mt 2))
         (DATE_FORMATS ! n) = Some (timestamp m) \<and>
       (\<forall>j < n.
          strptime ((if k = 0 then match_group mt 2 else match_group mt 1) @ u '', '' @
                    strip (if k = 0 then match_group mt 1 else match_group mt 2))
            (DATE_FORMATS ! j) = None)"
proof (rule parse_text_invariant)
  fix line m
  assume "line \<in> set (split_on 10 input)" and "try_parse_line line = Some m"
  then show "\<exists>line \<in> set (split_on 10 input). \<exists>k mt n.
       first_match PATTERNS 0 (clean_line line) = Some (k, mt) \<and>
       parse_timestamp (if k = 0 then match_group mt 2 else match_group mt 1)
         (if k = 0 then match_group mt 1 else match_group mt 2) = Some (timestamp m) \<and>
       n < length DATE_FORMATS \<and>
       strptime ((if k = 0 then match_group mt 2 else match_group mt 1) @ u '', '' @
                 strip (if k = 0 then match_group mt 1 else match_group mt 2))
         (DATE_FORMATS ! n) = Some (timestamp m) \<and>
       (\<forall>j < n.
          strptime ((if k = 0 then match_group mt 2 else match_group mt 1) @ u '', '' @
                    strip (if k = 0 then match_group mt 1 else match_group mt 2))
            (DATE_FORMATS ! j) = None)"
    using try_parse_line_timestamp[of line m] by blast
next
  fix m :: chat_message and x
  assume "\<exists>line \<in> set (split_on 10 input). \<exists>k mt n.
       first_match PATTERNS 0 (clean_line line) = Some (k, mt) \<and>
       parse_timestamp (if k = 0 then match_group mt 2 else match_group mt 1)
         (if k = 0 then match_group mt 1 else match_group mt 2) = Some (timestamp m) \<and>
       n < length DATE_FORMATS \<and>
       strptime ((if k = 0 then match_group mt 2 else match_group mt 1) @ u '', '' @
                 strip (if k = 0 then match_group mt 1 else match_group mt 2))
         (DATE_FORMATS ! n) = Some (timestamp m) \<and>
       (\<forall>j < n.
          strptime ((if k = 0 then match_group mt 2 else match_group mt 1) @ u '', '' @
                    strip (if k = 0 then match_group mt 1 else match_group mt 2))
            (DATE_FORMATS ! j) = None)"
  then show "\<exists>line \<in> set (split_on 10 input). \<exists>k mt n.
       first_match PATTERNS 0 (clean_line line) = Some (k, mt) \<and>
       parse_timestamp (if k = 0 then match_group mt 2 else match_group mt 1)
         (if k = 0 then match_group mt 1 else match_group mt 2) =
         Some (timestamp (m\<lparr>content := content m @ x\<rparr>)) \<and>
       n < length DATE_FORMATS \<and>
       strptime ((if k = 0 then match_group mt 2 else match_group mt 1) @ u '', '' @
                 strip (if k = 0 then match_group mt 1 else match_group mt 2))
         (DATE_FORMATS ! n) = Some (timestamp (m\<lparr>content := content m @ x\<rparr>)) \<and>
       (\<forall>j < n.
          strptime ((if k = 0 then match_group mt 2 else match_group mt 1) @ u '', '' @
                    strip (if k = 0 then match_group mt 1 else match_group mt 2))
            (DATE_FORMATS ! j) = None)"
    by simp
qed

lemma unparseable_line:
  assumes "first_match PATTERNS 0 (clean_line line) = Some (k, mt)"
    and "parse_timestamp (if k = 0 then match_group mt 2 else match_group mt 1)
           (if k = 0 then match_group mt 1 else match_group mt 2) = None"
  shows "try_parse_line line = None"
  using assms
  by (cases "k = 0")
     (simp_all add: try_parse_line_def Let_def match_patterns_first_match extract_message_def)

text \<open>
  C3. Every message of a parsed conversation carries the timestamp that
  \<open>_parse_timestamp\<close> gave for the date and time captured, by the first pattern that
  matches, in a line of the input, and that timestamp is the value of \<open>strptime\<close> for
  the first format of the list under which the captured text parses. A line whose start
  matches a pattern but whose date and time parse under no format is no message: it is
  appended, after a newline, to the content of the message in progress, or dropped when no
  message has started; no error is raised.
\<close>

theorem timestamp_always_parsed:
  "(\<forall>m \<in> set (messages (parse_text input)).
      \<exists>ln \<in> set (split_on 10 input). \<exists>i g n.
        first_match PATTERNS 0 (clean_line ln) = Some (i, g) \<and>
        parse_timestamp (if i = 0 then match_group g 2 else match_group g 1)
          (if i = 0 then match_group g 1 else match_group g 2) = Some (timestamp m) \<and>
        n < length DATE_FORMATS \<and>
        strptime ((if i = 0 then match_group g 2 else match_group g 1) @ u '', '' @
                  strip (if i = 0 then match_group g 1 else match_group g 2))
          (DATE_FORMATS ! n) = Some (timestamp m) \<and>
        (\<forall>j < n.
           strptime ((if i = 0 then match_group g 2 else match_group g 1) @ u '', '' @
                     strip (if i = 0 then match_group g 1 else match_group g 2))
             (DATE_FORMATS ! j) = None)) \<and>
   (first_match PATTERNS 0 (clean_line line) = Some (k, mt) \<and>
    parse_timestamp (if k = 0 then match_group mt 2 else match_group mt 1)
      (if k = 0 then match_group mt 1 else match_group mt 2) = None \<longrightarrow>
      try_parse_line line = None \<and>
      parse_step (msgs, Some cur) line =
        (msgs, Some (cur\<lparr>content := content cur @ [10] @ line\<rparr>)) \<and>
      parse_step (msgs, None) line = (msgs, None))"
proof -
  have "try_parse_line line = None"
    if "first_match PATTERNS 0 (clean_line line) = Some (k, mt)"
      and "parse_timestamp (if k = 0 then match_group mt 2 else match_group mt 1)
             (if k = 0 then match_group mt 1 else match_group mt 2) = None"
    using that by (rule unparseable_line)
  then have 2: "first_match PATTERNS 0 (clean_line line) = Some (k, mt) \<and>
    parse_timestamp (if k = 0 then match_group mt 2 else match_group mt 1)
      (if k = 0 then match_group mt 1 else match_group mt 2) = None \<longrightarrow>
      try_parse_line line = None \<and>
      parse_step (msgs, Some cur) line =
        (msgs, Some (cur\<lparr>content := content cur @ [10] @ line\<rparr>)) \<and>
      parse_step (msgs, None) line = (msgs, None)"
    by (simp add: parse_step_cases)
  show ?thesis using parse_text_timestamps[of input] 2 by blast
qed

lemma bad_line_match:
  "first_match PATTERNS 0 (clean_line bad_line) =
     Some (3, \<lparr>groups = [(2, u ''09:01''), (1, u ''99/99/2024'')], m_end = 20\<rparr>)"
  by (simp add: bad_line_def PATTERNS_def clean_line_def strip_def UNICODE_JUNK_def rx_eval u_def)

lemma bad_line_timestamp: "parse_timestamp (u ''99/99/2024'') (u ''09:01'') = None"
  by (simp add: parse_timestamp_def DATE_FORMATS_def strip_def strptime_eval rx_eval u_def)

lemma good_line_match:
  "first_match PATTERNS 0 (clean_line good_line) =
     Some (3, \<lparr>groups = [(2, u ''09:01''), (1, u ''12/01/2024'')], m_end = 20\<rparr>)"
  by (simp add: good_line_def PATTERNS_def clean_line_def strip_def UNICODE_JUNK_def rx_eval u_def)

lemma good_line_timestamp:
  "parse_timestamp (u ''12/01/2024'') (u ''09:01'') = Some (mk_datetime 2024 1 12 9 1)"
  by (simp add: parse_timestamp_def DATE_FORMATS_def strip_def strptime_eval rx_eval u_def
      mk_datetime_def)

lemma good_bad_parse:
  "parse_text (good_line @ [10] @ bad_line) =
     \<lparr>messages =
        [\<lparr>timestamp = mk_datetime 2024 1 12 9 1, sender = u ''Alice'',
          content = u ''Hi'' @ [10] @ bad_line, is_system = False, is_media = False\<rparr>]\<rparr>"
  by (simp add: good_line_def bad_line_def parser_eval rx_eval strptime_eval u_def
      mk_datetime_def)

lemma good_bad_lines: "split_on 10 (good_line @ [10] @ bad_line) = [good_line, bad_line]"
  by (simp add: good_line_def bad_line_def u_def)

theorem timestamp_always_parsed_witness:
  "parse_text (good_line @ [10] @ bad_line) =
     \<lparr>messages =
        [\<lparr>timestamp = mk_datetime 2024 1 12 9 1, sender = u ''Alice'',
          content = u ''Hi'' @ [10] @ bad_line, is_system = False, is_media = False\<rparr>]\<rparr> \<and>
   split_on 10 (good_line @ [10] @ bad_line) = [good_line, bad_line] \<and>
   first_match PATTERNS 0 (clean_line good_line) =
     Some (3, \<lparr>groups = [(2, u ''09:01''), (1, u ''12/01/2024'')], m_end = 20\<rparr>) \<and>
   parse_timestamp (u ''12/01/2024'') (u ''09:01'') = Some (mk_datetime 2024 1 12 9 1) \<and>
   first_match PATTERNS 0 (clean_line bad_line) =
     Some (3, \<lparr>groups = [(2, u ''09:01''), (1, u ''99/99/2024'')], m_end = 20\<rparr>) \<and>
   parse_timestamp (u ''99/99/2024'') (u ''09:01'') = None \<and>
   try_parse_line bad_line = None \<and>
   parse_step ([], Some sample_alice) bad_line =
     ([], Some (sample_alice\<lparr>content := content sample_alice @ [10] @ bad_line\<rparr>)) \<and>
   parse_step ([], None) bad_line = ([], None) \<and>
   list_ex (\<lambda>ln. \<exists>i g. first_match PATTERNS 0 (clean_line ln) = Some (i, g) \<and>
              parse_timestamp (if i = 0 then match_group g 2 else match_group g 1)
                (if i = 0 then match_group g 1 else match_group g 2) =
                Some (mk_datetime 2024 1 12 9 1))
     (split_on 10 (good_line @ [10] @ bad_line))"
proof -
  let ?mt = "\<lparr>groups = [(2, u ''09:01''), (1, u ''99/99/2024'')], m_end = 20\<rparr>"
  let ?input = "good_line @ [10] @ bad_line"
  let ?m = "\<lparr>timestamp = mk_datetime 2024 1 12 9 1, sender = u ''Alice'',
          content = u ''Hi'' @ [10] @ bad_line, is_system = False, is_media = False\<rparr>"
  have g: "match_group ?mt 1 = u ''99/99/2024''" "match_group ?mt 2 = u ''09:01''"
    by (simp_all add: match_group_def)
  have h: "first_match PATTERNS 0 (clean_line bad_line) = Some (3, ?mt) \<and>
    parse_timestamp (if (3::nat) = 0 then match_group ?mt 2 else match_group ?mt 1)
      (if (3::nat) = 0 then match_group ?mt 1 else match_group ?mt 2) = None"
    using bad_line_match bad_line_timestamp g by simp
  note inst = timestamp_always_parsed[of ?input bad_line 3 ?mt "[]" sample_alice]
  have t: "try_parse_line bad_line = None \<and>
      parse_step ([], Some sample_alice) bad_line =
        ([], Some (sample_alice\<lparr>content := content sample_alice @ [10] @ bad_line\<rparr>)) \<and>
      parse_step ([], None) bad_line = ([], None)"
    using inst h by blast
  have mem: "?m \<in> set (messages (parse_text ?input))"
    unfolding good_bad_parse by simp
  have "\<exists>ln \<in> set (split_on 10 ?input). \<exists>i g.
          first_match PATTERNS 0 (clean_line ln) = Some (i, g) \<and>
          parse_timestamp (if i = 0 then match_group g 2 else match_group g 1)
            (if i = 0 then match_group g 1 else match_group g 2) = Some (timestamp ?m)"
    using inst mem by blast
  then have l: "list_ex (\<lambda>ln. \<exists>i g. first_match PATTERNS 0 (clean_line ln) = Some (i, g) \<and>
              parse_timestamp (if i = 0 then match_group g 2 else match_group g 1)
                (if i = 0 then match_group g 1 else match_group g 2) =
                Some (mk_datetime 2024 1 12 9 1))
     (split_on 10 ?input)"
    by (simp add: list_ex_iff)
  show ?thesis
    using good_bad_parse good_bad_lines good_line_match good_line_timestamp bad_line_match
      bad_line_timestamp t l by blast
qed

text \<open>
  C4. The text \<open>12/01/2024, 09:01 - Alice: Hey everyone!\<close>, newline,
  \<open>12/01/2024, 09:02 - Bob: Hi Alice!\<close>, newline, parses to exactly two messages:
  Alice's, with content \<open>Hey everyone!\<close> and timestamp 2024-01-12 09:01 (the day
  first, by the first format of the list), then Bob's, with timestamp 2024-01-12 09:02.
  (The empty piece after the last newline is a continuation line of Bob's message.)
\<close>

theorem parse_text_two_messages:
  "parse_text (u ''12/01/2024, 09:01 - Alice: Hey everyone!'' @ [10] @
               u ''12/01/2024, 09:02 - Bob: Hi Alice!'' @ [10]) =
     \<lparr>messages =
        [\<lparr>timestamp = mk_datetime 2024 1 12 9 1, sender = u ''Alice'',
          content = u ''Hey everyone!'', is_system = False, is_media = False\<rparr>,
         \<lparr>timestamp = mk_datetime 2024 1 12 9 2, sender = u ''Bob'',
          content = u ''Hi Alice!'' @ [10], is_system = False, is_media = False\<rparr>]\<rparr> \<and>
   strptime (u ''12/01/2024, 09:01'') (hd DATE_FORMATS) = Some (mk_datetime 2024 1 12 9 1) \<and>
   hd DATE_FORMATS = ''%d/%m/%Y, %H:%M''"
  by (simp add: parser_eval rx_eval strptime_eval u_def mk_datetime_def)

text \<open>
  C5, at a failing input. The second line, a blank, U+200E, \<open>more\<close> and a blank, is a
  continuation line: it is appended to the content as it was read, with the mark and
  the blanks around it.
\<close>

theorem continuation_line_not_cleaned:
  "parse_text (u ''12/01/2024, 09:01 - Alice: Hi'' @ [10] @ [32, 8206] @ u ''more '') =
     \<lparr>messages =
        [\<lparr>timestamp = mk_datetime 2024 1 12 9 1, sender = u ''Alice'',
          content = u ''Hi'' @ [10] @ [32, 8206] @ u ''more '', is_system = False,
          is_media = False\<rparr>]\<rparr> \<and>
   UNICODE_JUNK 8206 \<and> is_space 32 \<and>
   clean_line ([32, 8206] @ u ''more '') = u ''more''"
  by (simp add: parser_eval rx_eval strptime_eval u_def mk_datetime_def)

lemma take_prefix_append: "take k xs = n \<Longrightarrow> k \<le> length xs \<Longrightarrow> take k (xs @ ys) = n"
  by simp

lemma contains_append: "contains needle hay \<Longrightarrow> contains needle (hay @ extra)"
proof (induction hay)
  case Nil
  then show ?case by (cases extra) simp_all
next
  case (Cons c cs)
  show ?case
  proof (cases "take (length needle) (c # cs) = needle")
    case True
    then have "length (take (length needle) (c # cs)) = length needle"
      by (rule arg_cong)
    then have "min (length needle) (length (c # cs)) = length needle"
      by (simp only: length_take)
    then have "length needle \<le> length (c # cs)"
      by linarith
    with True have "take (length needle) ((c # cs) @ extra) = needle"
      by (rule take_prefix_append)
    then show ?thesis by simp
  next
    case False
    with Cons.prems have "contains needle cs" by simp
    then have "contains needle (cs @ extra)" by (rule Cons.IH)
    then show ?thesis by simp
  qed
qed

text \<open>
  The lowercase of a string that is extended at its end changes at most in its sigmas: a
  final sigma may stop being final.
\<close>

lemma same_but_sigma_refl: "same_but_sigma x x"
  by (simp add: same_but_sigma_def list_all2_refl)

lemma same_but_sigma_append:
  "same_but_sigma x y \<Longrightarrow> same_but_sigma x' y' \<Longrightarrow> same_but_sigma (x @ x') (y @ y')"
  by (simp add: same_but_sigma_def list_all2_appendI)

lemma lower_from_append:
  "\<exists>x prev'. lower_from prev (a @ b) = x @ lower_from prev' b \<and>
              same_but_sigma x (lower_from prev a)"
proof (induction a arbitrary: prev)
  case Nil
  have "lower_from prev ([] @ b) = [] @ lower_from prev b \<and> same_but_sigma [] (lower_from prev [])"
    by (simp add: same_but_sigma_def)
  then show ?case by blast
next
  case (Cons c cs)
  let ?p = "if case_ignorable c then prev else cased c"
  let ?h1 = "if c = 931 then [if prev \<and> \<not> cased_follows (cs @ b) then 962 else 963]
             else lower_cp c"
  let ?h2 = "if c = 931 then [if prev \<and> \<not> cased_follows cs then 962 else 963]
             else lower_cp c"
  obtain x prev' where x: "lower_from ?p (cs @ b) = x @ lower_from prev' b"
    "same_but_sigma x (lower_from ?p cs)"
    using Cons.IH[of ?p] by blast
  have h: "same_but_sigma ?h1 ?h2"
    by (cases "c = 931") (simp_all add: same_but_sigma_def list_all2_refl)
  have 1: "lower_from prev ((c # cs) @ b) = (?h1 @ x) @ lower_from prev' b"
    using x(1) by simp
  have 2: "same_but_sigma (?h1 @ x) (lower_from prev (c # cs))"
    using same_but_sigma_append[OF h x(2)] by simp
  show ?case using 1 2 by blast
qed

lemma same_but_sigma_eq:
  "same_but_sigma t n \<Longrightarrow> \<forall>c \<in> set n. c \<noteq> 962 \<and> c \<noteq> 963 \<Longrightarrow> t = n"
  unfolding same_but_sigma_def
  by (induction t n rule: list_all2_induct) auto

lemma same_but_sigma_take:
  "same_but_sigma x y \<Longrightarrow> same_but_sigma (take k x) (take k y)"
  by (simp add: same_but_sigma_def list_all2_takeI)

lemma same_but_sigma_length: "same_but_sigma x y \<Longrightarrow> length x = length y"
  by (simp add: same_but_sigma_def list_all2_lengthD)

lemma contains_same_but_sigma:
  assumes free: "\<forall>c \<in> set needle. c \<noteq> 962 \<and> c \<noteq> 963"
  shows "same_but_sigma x y \<Longrightarrow> contains needle y \<Longrightarrow> contains needle x"
proof (induction y arbitrary: x)
  case Nil
  then have "x = []" by (simp add: same_but_sigma_def)
  with Nil show ?case by simp
next
  case (Cons q qs)
  from Cons.prems(1) obtain p ps where x: "x = p # ps" and tl: "same_but_sigma ps qs"
    by (auto simp add: same_but_sigma_def list_all2_Cons2)
  show ?case
  proof (cases "take (length needle) (q # qs) = needle")
    case True
    have "same_but_sigma (take (length needle) x) (take (length needle) (q # qs))"
      using Cons.prems(1) by (rule same_but_sigma_take)
    with True have "same_but_sigma (take (length needle) x) needle" by simp
    then have "take (length needle) x = needle"
      using free by (rule same_but_sigma_eq)
    then show ?thesis by (simp add: x)
  next
    case False
    with Cons.prems(2) have "contains needle qs" by simp
    with tl have "contains needle ps" by (rule Cons.IH)
    then show ?thesis by (simp add: x)
  qed
qed

lemma contains_lower_append:
  assumes free: "\<forall>c \<in> set needle. c \<noteq> 962 \<and> c \<noteq> 963"
    and c: "contains needle (lower a)"
  shows "contains needle (lower (a @ b))"
proof -
  obtain x prev' where x: "lower_from False (a @ b) = x @ lower_from prev' b"
    "same_but_sigma x (lower_from False a)"
    using lower_from_append by blast
  from c have "contains needle (lower_from False a)" by (simp add: lower_def)
  with x(2) have "contains needle x"
    using contains_same_but_sigma[OF free] by blast
  then have "contains needle (x @ lower_from prev' b)" by (rule contains_append)
  with x(1) show ?thesis by (simp add: lower_def)
qed

lemma media_indicator_no_sigma: "\<forall>c \<in> set (u MEDIA_INDICATOR). c \<noteq> 962 \<and> c \<noteq> 963"
  by (simp add: MEDIA_INDICATOR_def u_def)

lemma extract_message_media:
  "extract_message mt line tf = Some m \<Longrightarrow>
   is_media m = (rx_match sender_rx (drop (m_end mt) line) \<noteq> None \<and>
                 contains (u MEDIA_INDICATOR) (lower (content m)))"
  unfolding extract_message_def Let_def
  by (auto split: option.splits)

lemma extract_message_system:
  "extract_message mt line tf = Some m \<Longrightarrow>
   rx_match sender_rx (drop (m_end mt) line) = None \<Longrightarrow>
   sender m = u ''System'' \<and> is_system m \<and> \<not> is_media m"
  unfolding extract_message_def Let_def
  by (auto split: option.splits)

lemma parse_text_media:
  "\<forall>m \<in> set (messages (parse_text text)).
     is_media m \<longrightarrow> contains (u MEDIA_INDICATOR) (lower (content m))"
proof (rule parse_text_invariant)
  fix line m assume "try_parse_line line = Some m"
  then obtain mt l tf where "extract_message mt l tf = Some m"
    using try_parse_line_extract by blast
  then show "is_media m \<longrightarrow> contains (u MEDIA_INDICATOR) (lower (content m))"
    using extract_message_media by blast
next
  fix m :: chat_message and x
  assume "is_media m \<longrightarrow> contains (u MEDIA_INDICATOR) (lower (content m))"
  then show "is_media (m\<lparr>content := content m @ x\<rparr>) \<longrightarrow>
             contains (u MEDIA_INDICATOR) (lower (content (m\<lparr>content := content m @ x\<rparr>)))"
    using contains_lower_append[OF media_indicator_no_sigma] by simp
qed

text \<open>
  C6, as the claim states it, fails: a line without the \<open>Sender:\<close> delimiter whose
  content is the marker gives a message with \<open>is_media\<close> false.
\<close>

theorem media_without_sender_counterexample:
  "parse_text (u ''12/01/2024, 09:05 - <Media omitted>'') =
     \<lparr>messages =
        [\<lparr>timestamp = mk_datetime 2024 1 12 9 5, sender = u ''System'',
          content = u ''<Media omitted>'', is_system = True, is_media = False\<rparr>]\<rparr> \<and>
   contains (u MEDIA_INDICATOR) (lower (u ''<Media omitted>''))"
  by (simp add: parser_eval rx_eval strptime_eval u_def mk_datetime_def)

text \<open>
  C6, as the code has it. A message taken from a line has \<open>is_media\<close> exactly when
  the rest of the line has the \<open>Sender:\<close> delimiter and the content taken from the
  line contains the marker, whatever the case of its letters; a line without the
  delimiter gives a message of the sender \<open>System\<close> that is a system message and
  never a media message. In a parsed conversation, a media message contains the marker.
\<close>

theorem is_media_spec:
  "(extract_message mt line tf = Some m \<longrightarrow>
      is_media m = (rx_match sender_rx (drop (m_end mt) line) \<noteq> None \<and>
                    contains (u MEDIA_INDICATOR) (lower (content m))) \<and>
      (rx_match sender_rx (drop (m_end mt) line) = None \<longrightarrow>
         sender m = u ''System'' \<and> is_system m \<and> \<not> is_media m)) \<and>
   (\<forall>m' \<in> set (messages (parse_text text)).
      is_media m' \<longrightarrow> contains (u MEDIA_INDICATOR) (lower (content m')))"
  using extract_message_media[of mt line tf m] extract_message_system[of mt line tf m]
    parse_text_media[of "text"]
  by blast

lemma media_line_extract:
  "extract_message \<lparr>groups = [(2, u ''09:05''), (1, u ''12/01/2024'')], m_end = 20\<rparr>
     media_line False = Some media_message"
  by (simp add: media_line_def media_message_def extract_message_def parse_timestamp_def
      DATE_FORMATS_def strip_def is_system_message_def SYSTEM_INDICATORS_def
      MEDIA_INDICATOR_def rx_eval strptime_eval u_def mk_datetime_def)

theorem is_media_spec_witness:
  "extract_message \<lparr>groups = [(2, u ''09:05''), (1, u ''12/01/2024'')], m_end = 20\<rparr>
     media_line False = Some media_message \<and>
   is_media media_message \<and>
   rx_match sender_rx (drop 20 media_line) \<noteq> None \<and>
   contains (u MEDIA_INDICATOR) (lower (content media_message)) \<and>
   messages (parse_text media_line) = [media_message] \<and>
   list_all (\<lambda>m. is_media m \<and> contains (u MEDIA_INDICATOR) (lower (content m)))
     (messages (parse_text media_line))"
proof -
  let ?mt = "\<lparr>groups = [(2, u ''09:05''), (1, u ''12/01/2024'')], m_end = 20\<rparr>"
  have m: "is_media media_message" by (simp add: media_message_def)
  have "is_media media_message =
          (rx_match sender_rx (drop (m_end ?mt) media_line) \<noteq> None \<and>
           contains (u MEDIA_INDICATOR) (lower (content media_message)))"
    using is_media_spec[of ?mt media_line False media_message "[]"] media_line_extract by blast
  with m have c: "rx_match sender_rx (drop 20 media_line) \<noteq> None \<and>
           contains (u MEDIA_INDICATOR) (lower (content media_message))"
    by simp
  have p: "messages (parse_text media_line) = [media_message]"
    by (simp add: media_line_def media_message_def parser_eval rx_eval strptime_eval u_def
        mk_datetime_def)
  have l: "list_all (\<lambda>m. is_media m \<and> contains (u MEDIA_INDICATOR) (lower (content m)))
     (messages (parse_text media_line))"
    unfolding p using m c by simp
  show ?thesis using media_line_extract m c p l by blast
qed

lemma matches_somewhere_start: "\<not> matches_somewhere r s \<Longrightarrow> rx_match r s = None"
  by (cases s) (simp_all add: matches_somewhere_def)

lemma pattern_needs_start:
  assumes "pattern \<in> set PATTERNS"
  shows "rx_match pattern [] = None"
    and "\<not> is_digit c \<Longrightarrow> c \<noteq> 91 \<Longrightarrow> rx_match pattern (c # cs) = None"
  using assms
  by (auto simp add: PATTERNS_def rx_match_def lit_def rep_candidates_def date_rx_def
      time_rx_def)

lemma no_match_without_start:
  assumes "pattern \<in> set PATTERNS"
  shows "\<forall>c \<in> set s. \<not> is_digit c \<and> c \<noteq> 91 \<Longrightarrow> \<not> matches_somewhere pattern s"
proof (induction s)
  case Nil
  then show ?case
    using pattern_needs_start(1)[OF assms] by (simp add: matches_somewhere_def)
next
  case (Cons c cs)
  then have "rx_match pattern (c # cs) = None"
    using pattern_needs_start(2)[OF assms] by simp
  moreover have "\<not> matches_somewhere pattern cs"
    using Cons by simp
  ultimately show ?case by (simp add: matches_somewhere_def)
qed

text \<open>
  When the file system answers that the source is no existing path, and no pattern
  matches anywhere in the first 1000 characters once the invisible marks are removed, no
  parser accepts the source and \<open>ChatAnalyzer.parse\<close> raises \<open>ValueError\<close>.
\<close>

lemma no_parser_value_error:
  assumes "path_exists e source = Inr False"
    and "\<forall>pattern \<in> set PATTERNS.
           \<not> matches_somewhere pattern (filter (\<lambda>c. \<not> UNICODE_JUNK c) (take 1000 source))"
  shows "(\<forall>p \<in> set PARSERS. can_handle e p source = Inr False) \<and>
         analyzer_parse e source = Inl ValueError"
proof -
  have nomatch: "\<not> list_ex (\<lambda>pattern. rx_match pattern
           (filter (\<lambda>c. \<not> UNICODE_JUNK c) (take 1000 source)) \<noteq> None) PATTERNS"
    using assms(2) by (simp add: list_ex_iff matches_somewhere_start)
  have h_pdf: "can_handle e PDFParser source = Inr False"
    using assms(1) by (simp add: can_handle_def)
  have h_docx: "can_handle e DocxParser source = Inr False"
    using assms(1) by (simp add: can_handle_def)
  have h_img: "can_handle e ImageParser source = Inr False"
    using assms(1) by (simp add: can_handle_def)
  have h_text: "can_handle e WhatsAppTextParser source = Inr False"
    using assms(1) nomatch by (simp add: can_handle_def Let_def)
  show ?thesis
    using h_pdf h_docx h_img h_text by (simp add: PARSERS_def analyzer_parse_def)
qed

lemma split_on_no_sep: "sep \<notin> set s \<Longrightarrow> split_on sep s = [s]"
  by (induction s) simp_all

lemma long_text_suffix: "path_suffix long_text = u ''.pdf''"
proof -
  have "47 \<notin> set long_text" by (simp add: long_text_def u_def)
  then have "split_on 47 long_text = [long_text]" by (rule split_on_no_sep)
  moreover have "long_text \<noteq> []" "long_text \<noteq> u ''.''"
    by (auto simp add: long_text_def u_def dest: arg_cong[where f = length])
  ultimately have name: "path_name long_text = long_text"
    by (simp add: path_name_def)
  have r: "rev long_text = [102, 100, 112, 46] @ replicate 300 97"
    by (simp add: long_text_def u_def)
  have "takeWhile (\<lambda>c. c \<noteq> 46) (rev long_text) = [102, 100, 112]"
    unfolding r by simp
  moreover have "length long_text = 304" by (simp add: long_text_def u_def)
  ultimately show ?thesis by (simp add: path_suffix_def name u_def)
qed

lemma long_text_refused: "path_exists long_name_env long_text = Inl OSError"
proof -
  have "47 \<notin> set long_text" by (simp add: long_text_def u_def)
  then have "split_on 47 long_text = [long_text]" by (rule split_on_no_sep)
  moreover have "length long_text = 304" by (simp add: long_text_def u_def)
  ultimately have "name_too_long long_text" by (simp add: name_too_long_def)
  then show ?thesis by (simp add: long_name_env_def)
qed

lemma long_text_no_pattern:
  "list_all (\<lambda>pattern. \<not> matches_somewhere pattern
       (filter (\<lambda>c. \<not> UNICODE_JUNK c) (take 1000 long_text))) PATTERNS"
proof -
  have "\<forall>c \<in> set long_text. \<not> is_digit c \<and> c \<noteq> 91"
    by (simp add: long_text_def u_def is_digit_def)
  then have "\<forall>c \<in> set (filter (\<lambda>c. \<not> UNICODE_JUNK c) (take 1000 long_text)).
               \<not> is_digit c \<and> c \<noteq> 91"
    by (auto dest: in_set_takeD)
  then show ?thesis
    using no_match_without_start by (simp add: list_all_iff)
qed

text \<open>
  C9, at a failing input. The text is 300 letters and \<open>.pdf\<close>: no pattern matches
  anywhere in it, and it is not the path of a file. Its suffix makes \<open>PDFParser.can_handle\<close>
  ask the file system whether the path exists; the name is too long, \<open>Path.exists\<close>
  raises \<open>OSError\<close>, nothing catches it, and \<open>ChatAnalyzer.parse\<close> ends with
  \<open>OSError\<close> where the claim has \<open>ValueError\<close>.
\<close>

theorem long_text_raises_os_error:
  "analyzer_parse long_name_env long_text = Inl OSError \<and>
   can_handle long_name_env PDFParser long_text = Inl OSError \<and>
   length long_text = 304 \<and>
   path_suffix long_text = u ''.pdf'' \<and>
   path_exists long_name_env long_text \<noteq> Inr True \<and>
   list_all (\<lambda>pattern. \<not> matches_somewhere pattern
       (filter (\<lambda>c. \<not> UNICODE_JUNK c) (take 1000 long_text))) PATTERNS"
proof -
  have low: "lower (u ''.pdf'') = u ''.pdf''"
    by (simp add: lower_eval u_def)
  have c: "can_handle long_name_env PDFParser long_text = Inl OSError"
    by (simp add: can_handle_def long_text_suffix low long_text_refused)
  then have a: "analyzer_parse long_name_env long_text = Inl OSError"
    by (simp add: analyzer_parse_def PARSERS_def)
  have l: "length long_text = 304" by (simp add: long_text_def u_def)
  show ?thesis
    using a c l long_text_suffix long_text_refused long_text_no_pattern by simp
qed

end
